theory Spec2Isabelle
  imports Complex_Main "HOL-Library.Log_Nat" "HOL-Library.Word"
begin

section \<open>JavaScript numbers\<close>

text \<open>
  A JavaScript number is an IEEE-754 binary64 value. Every finite double is a rational,
  so a number is modelled as a rational or one of the three special values. The functions
  below accept any rational, which includes every double. Negative zero is identified
  with zero: no operation used by the program tells them apart in its integer result.
\<close>

datatype jsnum = Fin rat | PosInf | NegInf | NaN

text \<open>\<^verbatim>\<open>Number.isFinite\<close>.\<close>

fun isFinite :: "jsnum \<Rightarrow> bool" where
  "isFinite (Fin _) = True"
| "isFinite _ = False"

text \<open>The comparison \<^verbatim>\<open>x > 0\<close>; it is false for NaN.\<close>

fun gtZero :: "jsnum \<Rightarrow> bool" where
  "gtZero (Fin a) = (0 < a)"
| "gtZero PosInf = True"
| "gtZero NegInf = False"
| "gtZero NaN = False"

text \<open>\<^verbatim>\<open>Math.floor\<close>: exact on doubles.\<close>

fun jsFloor :: "jsnum \<Rightarrow> jsnum" where
  "jsFloor (Fin a) = Fin (of_int \<lfloor>a\<rfloor>)"
| "jsFloor x = x"

text \<open>\<^verbatim>\<open>Math.min\<close> and \<^verbatim>\<open>Math.max\<close> of two numbers: NaN if either is NaN.\<close>

fun jsMin :: "jsnum \<Rightarrow> jsnum \<Rightarrow> jsnum" where
  "jsMin NaN _ = NaN"
| "jsMin _ NaN = NaN"
| "jsMin NegInf _ = NegInf"
| "jsMin _ NegInf = NegInf"
| "jsMin PosInf y = y"
| "jsMin x PosInf = x"
| "jsMin (Fin a) (Fin b) = Fin (min a b)"

fun jsMax :: "jsnum \<Rightarrow> jsnum \<Rightarrow> jsnum" where
  "jsMax NaN _ = NaN"
| "jsMax _ NaN = NaN"
| "jsMax PosInf _ = PosInf"
| "jsMax _ PosInf = PosInf"
| "jsMax NegInf y = y"
| "jsMax x NegInf = x"
| "jsMax (Fin a) (Fin b) = Fin (max a b)"

subsection \<open>Rounding to the nearest double\<close>

text \<open>
  \<open>ilog2 a\<close> is the binary exponent of a positive rational: the integer \<open>e\<close> with
  \<open>2\<^sup>e \<le> a < 2\<^sup>e\<^sup>+\<^sup>1\<close>. It is computed from the bit lengths of numerator and
  denominator, which fix it up to one.
\<close>

definition ilog2 :: "rat \<Rightarrow> int" where
  "ilog2 a = (let (p, q) = quotient_of a; d = bitlen p - bitlen q
              in if 2 powi d \<le> a then d else d - 1)"

text \<open>Rounding to the nearest integer, ties to the even one.\<close>

definition roundHalfEven :: "rat \<Rightarrow> int" where
  "roundHalfEven x =
     (let f = \<lfloor>x\<rfloor>; r = x - of_int f
      in if r < 1/2 then f else if 1/2 < r then f + 1 else if even f then f else f + 1)"

text \<open>
  The result of an arithmetic operation whose exact value is \<open>x\<close>: the nearest binary64
  value, ties to even. The significand has 53 bits, so the spacing of doubles around a
  value with exponent \<open>e\<close> is \<open>2\<^sup>e\<^sup>-\<^sup>5\<^sup>2\<close>; below \<open>2\<^sup>-\<^sup>1\<^sup>0\<^sup>2\<^sup>2\<close> (subnormal numbers) the
  spacing stays \<open>2\<^sup>-\<^sup>1\<^sup>0\<^sup>7\<^sup>4\<close>; a rounded magnitude of \<open>2\<^sup>1\<^sup>0\<^sup>2\<^sup>4\<close> or more overflows to infinity.
\<close>

definition roundDouble :: "rat \<Rightarrow> jsnum" where
  "roundDouble x =
     (if x = 0 then Fin 0
      else let a = \<bar>x\<bar>;
               e = max (ilog2 a) (- 1022);
               u = 2 powi (e - 52);
               v = of_int (roundHalfEven (a / u)) * u
           in if 2 powi 1024 \<le> v then (if 0 < x then PosInf else NegInf)
              else Fin (if 0 < x then v else - v))"

text \<open>The operators \<^verbatim>\<open>/\<close> and \<^verbatim>\<open>*\<close> on numbers.\<close>

fun jsDiv :: "jsnum \<Rightarrow> jsnum \<Rightarrow> jsnum" where
  "jsDiv NaN _ = NaN"
| "jsDiv _ NaN = NaN"
| "jsDiv (Fin a) (Fin b) =
     (if b = 0 then (if a = 0 then NaN else if 0 < a then PosInf else NegInf)
      else roundDouble (a / b))"
| "jsDiv (Fin a) _ = Fin 0"
| "jsDiv PosInf (Fin b) = (if 0 \<le> b then PosInf else NegInf)"
| "jsDiv NegInf (Fin b) = (if 0 \<le> b then NegInf else PosInf)"
| "jsDiv _ _ = NaN"

fun jsMul :: "jsnum \<Rightarrow> jsnum \<Rightarrow> jsnum" where
  "jsMul NaN _ = NaN"
| "jsMul _ NaN = NaN"
| "jsMul (Fin a) (Fin b) = roundDouble (a * b)"
| "jsMul (Fin a) PosInf = (if a = 0 then NaN else if 0 < a then PosInf else NegInf)"
| "jsMul (Fin a) NegInf = (if a = 0 then NaN else if 0 < a then NegInf else PosInf)"
| "jsMul PosInf (Fin b) = (if b = 0 then NaN else if 0 < b then PosInf else NegInf)"
| "jsMul NegInf (Fin b) = (if b = 0 then NaN else if 0 < b then NegInf else PosInf)"
| "jsMul PosInf PosInf = PosInf"
| "jsMul NegInf NegInf = PosInf"
| "jsMul PosInf NegInf = NegInf"
| "jsMul NegInf PosInf = NegInf"

text \<open>
  \<^verbatim>\<open>Math.round\<close>: the nearest integer, a tie going towards plus infinity. The value is
  exact: no rounding of the sum \<open>a + 1/2\<close> to a double is involved.
\<close>

fun jsRound :: "jsnum \<Rightarrow> jsnum" where
  "jsRound (Fin a) = Fin (of_int \<lfloor>a + 1/2\<rfloor>)"
| "jsRound x = x"

text \<open>\<^verbatim>\<open>Number.isInteger\<close>.\<close>

fun isInteger :: "jsnum \<Rightarrow> bool" where
  "isInteger (Fin a) = (of_int \<lfloor>a\<rfloor> = a)"
| "isInteger _ = False"

section \<open>JavaScript strings\<close>

text \<open>
  A string is a sequence of UTF-16 code units. \<open>isSpace\<close> is the set matched by the
  regular expression class \<^verbatim>\<open>\s\<close>, which is also the set removed by \<^verbatim>\<open>trim\<close>
  (white space and line terminators).
\<close>

type_synonym jsstring = "16 word list"

definition isSpace :: "16 word \<Rightarrow> bool" where
  "isSpace c \<longleftrightarrow>
     c \<in> set [0x9, 0xA, 0xB, 0xC, 0xD, 0x20, 0xA0, 0x1680, 0x2028, 0x2029, 0x202F, 0x205F,
               0x3000, 0xFEFF]
     \<or> (0x2000 \<le> c \<and> c \<le> 0x200A)"

text \<open>A string literal of the source, as code units.\<close>

definition str :: "string \<Rightarrow> jsstring" where
  "str s = map (\<lambda>c. of_nat (of_char c)) s"

text \<open>\<^verbatim>\<open>s.replace(/\s+/g, " ")\<close>: every maximal run of white space becomes one space.\<close>

function collapseSpaces :: "jsstring \<Rightarrow> jsstring" where
  "collapseSpaces [] = []"
| "collapseSpaces (c # cs) =
     (if isSpace c then 0x20 # collapseSpaces (dropWhile isSpace cs)
      else c # collapseSpaces cs)"
  by pat_completeness auto
termination
  by (relation "measure length") (auto simp: le_imp_less_Suc length_dropWhile_le)

text \<open>\<^verbatim>\<open>s.trim()\<close>.\<close>

definition trim :: "jsstring \<Rightarrow> jsstring" where
  "trim s = rev (dropWhile isSpace (rev (dropWhile isSpace s)))"

text \<open>A string in which no two adjacent code units are both white space.\<close>

fun noAdjacentSpaces :: "jsstring \<Rightarrow> bool" where
  "noAdjacentSpaces (a # b # cs) = (\<not> (isSpace a \<and> isSpace b) \<and> noAdjacentSpaces (b # cs))"
| "noAdjacentSpaces _ = True"

section \<open>Content script: page text and scroll position\<close>

definition MAX_TEXT_LENGTH :: nat where
  "MAX_TEXT_LENGTH = 9000"

definition TOTAL_QUESTIONS :: nat where
  "TOTAL_QUESTIONS = 5"

text \<open>
  \<^verbatim>\<open>collectPageText\<close>. The argument is \<^verbatim>\<open>document.body?.innerText\<close>: \<open>None\<close> when the
  document has no body. \<^verbatim>\<open>slice(0, MAX_TEXT_LENGTH)\<close> keeps the first 9000 code units.
\<close>

definition collectPageText :: "jsstring option \<Rightarrow> jsstring" where
  "collectPageText innerText =
     (let text = (case innerText of None \<Rightarrow> [] | Some t \<Rightarrow> t)
      in take MAX_TEXT_LENGTH (trim (collapseSpaces text)))"

text \<open>
  \<^verbatim>\<open>getScrollPercent\<close>. \<^verbatim>\<open>window.scrollY\<close> and \<^verbatim>\<open>doc.scrollTop\<close> are finite doubles,
  \<^verbatim>\<open>scrollHeight\<close> and \<^verbatim>\<open>clientHeight\<close> are integers (the DOM types \<^verbatim>\<open>double\<close> and
  \<^verbatim>\<open>long\<close>). \<^verbatim>\<open>scrollY || doc.scrollTop\<close> takes the second operand when the first is 0.
\<close>

definition getScrollPercent :: "rat \<Rightarrow> rat \<Rightarrow> int \<Rightarrow> int \<Rightarrow> jsnum" where
  "getScrollPercent scrollY docScrollTop scrollHeight clientHeight =
     (let scrollTop = (if scrollY \<noteq> 0 then scrollY else docScrollTop);
          scrollRange = scrollHeight - clientHeight
      in if scrollRange \<le> 0 then Fin 100
         else let rawPercent = jsMul (jsDiv (Fin scrollTop) (Fin (of_int scrollRange))) (Fin 100)
              in jsMin (Fin 100) (jsMax (Fin 0) (jsRound rawPercent)))"

section \<open>Content script: the quiz widget\<close>

record QuizItem =
  question :: jsstring
  options :: "jsstring list"
  correctIndex :: jsnum

record QuizPayload =
  questions :: "QuizItem list"

text \<open>\<^verbatim>\<open>isQuizPayload\<close>; the argument is \<^verbatim>\<open>QuizPayload | null\<close>.\<close>

definition isQuizPayload :: "QuizPayload option \<Rightarrow> bool" where
  "isQuizPayload v =
     (case v of None \<Rightarrow> False
      | Some p \<Rightarrow> 0 < length (questions p)
                  \<and> list_all (\<lambda>item. length (options item) = 4) (questions p))"

text \<open>The percentage of \<^verbatim>\<open>handleNext\<close>: \<^verbatim>\<open>Math.round((finalCorrect / totalQuestions) * 100)\<close>.\<close>

definition percentageOf :: "nat \<Rightarrow> nat \<Rightarrow> jsnum" where
  "percentageOf finalCorrect totalQuestions =
     jsRound (jsMul (jsDiv (Fin (of_nat finalCorrect)) (Fin (of_nat totalQuestions))) (Fin 100))"

subsection \<open>State\<close>

datatype status = Idle | Loading | Ready | Error

datatype authStep = EmailStep | OtpStep

text \<open>An authenticated session of the identity provider; \<open>user\<close> is \<^verbatim>\<open>session.user.id\<close>.\<close>

record Session =
  user :: jsstring

record PendingResult =
  score :: nat
  total :: nat
  percentage :: jsnum

text \<open>The component state of \<^verbatim>\<open>QuizlerWidget\<close> that its handlers read or write.\<close>

record widget =
  isOpen :: bool
  quiz :: "QuizPayload option"
  status :: status
  error :: "jsstring option"
  selectedIndex :: "nat option"
  showResult :: bool
  questionIndex :: nat
  correctCount :: nat
  isComplete :: bool
  showAuthModal :: bool
  authOtp :: jsstring
  authStep :: authStep
  authMessage :: "jsstring option"
  session :: "Session option"
  resultSaved :: bool
  pendingResult :: "PendingResult option"

text \<open>A row of the table \<^verbatim>\<open>quiz_results\<close> as \<^verbatim>\<open>saveQuizResult\<close> inserts it.\<close>

record QuizResultRow =
  user_id :: jsstring
  row_score :: nat
  total_questions :: nat
  row_percentage :: jsnum
  page_url :: jsstring
  page_title :: jsstring

record QuizRequest =
  url :: jsstring
  title :: jsstring
  req_text :: jsstring
  req_count :: nat

text \<open>
  What the widget reaches outside itself: the session the auth client reports
  (\<^verbatim>\<open>supabase.auth.getSession()\<close>), the rows stored in \<^verbatim>\<open>quiz_results\<close>, every insert
  issued (stored or rejected), the errors written to the console, the page
  (\<^verbatim>\<open>window.location.href\<close>, \<^verbatim>\<open>document.title\<close>, \<^verbatim>\<open>document.body?.innerText\<close>) and the
  \<^verbatim>\<open>quizler:generate\<close> messages sent to the background script.
\<close>

record world =
  authSession :: "Session option"
  quiz_results :: "QuizResultRow list"
  insertCalls :: "QuizResultRow list"
  consoleErrors :: "jsstring list"
  href :: jsstring
  documentTitle :: jsstring
  innerText :: "jsstring option"
  outbox :: "QuizRequest list"

text \<open>The state of the component when it mounts (the arguments of \<^verbatim>\<open>useState\<close>).\<close>

definition initialWidget :: widget where
  "initialWidget =
     \<lparr>isOpen = False, quiz = None, status = Idle, error = None, selectedIndex = None,
      showResult = False, questionIndex = 0, correctCount = 0, isComplete = False,
      showAuthModal = False, authOtp = [], authStep = EmailStep, authMessage = None,
      session = None, resultSaved = False, pendingResult = None\<rparr>"

text \<open>A page just loaded: nobody signed in, an empty table, nothing sent or logged.\<close>

definition freshWorld :: "jsstring \<Rightarrow> jsstring \<Rightarrow> jsstring option \<Rightarrow> world" where
  "freshWorld u t b =
     \<lparr>authSession = None, quiz_results = [], insertCalls = [], consoleErrors = [],
      href = u, documentTitle = t, innerText = b, outbox = []\<rparr>"

subsection \<open>Values derived on each render\<close>

definition quizData :: "widget \<Rightarrow> QuizPayload option" where
  "quizData w = (if isQuizPayload (quiz w) then quiz w else None)"

definition totalQuestions :: "widget \<Rightarrow> nat" where
  "totalQuestions w =
     (case quizData w of Some p \<Rightarrow> length (questions p) | None \<Rightarrow> TOTAL_QUESTIONS)"

text \<open>\<^verbatim>\<open>quizData?.questions[questionIndex] ?? null\<close>: an index out of range gives null.\<close>

definition currentQuestion :: "widget \<Rightarrow> QuizItem option" where
  "currentQuestion w =
     (case quizData w of
        None \<Rightarrow> None
      | Some p \<Rightarrow> if questionIndex w < length (questions p)
                  then Some (questions p ! questionIndex w) else None)"

definition hasResult :: "widget \<Rightarrow> bool" where
  "hasResult w =
     (case currentQuestion w of
        None \<Rightarrow> False
      | Some q \<Rightarrow> showResult w \<and> selectedIndex w \<noteq> None \<and> isInteger (correctIndex q))"

definition isLastQuestion :: "widget \<Rightarrow> bool" where
  "isLastQuestion w \<longleftrightarrow> int (totalQuestions w) - 1 \<le> int (questionIndex w)"

text \<open>\<^verbatim>\<open>selectedIndex === currentQuestion.correctIndex\<close>.\<close>

definition isCorrect :: "nat \<Rightarrow> QuizItem \<Rightarrow> bool" where
  "isCorrect sel q \<longleftrightarrow> Fin (of_nat sel) = correctIndex q"

subsection \<open>Handlers\<close>

text \<open>
  A call of a handler is one step, the calls it awaits included. What a handler reads
  from the render that created it, rather than from the state at the time of the call,
  is an argument of its own. The outcome of the database insert is an argument: \<open>None\<close>
  when the row is stored, \<open>Some e\<close> when the insert returns the error \<open>e\<close>.
\<close>

text \<open>\<^verbatim>\<open>saveQuizResult\<close>.\<close>

definition saveQuizResult ::
  "jsstring option \<Rightarrow> nat \<Rightarrow> nat \<Rightarrow> jsnum \<Rightarrow> widget \<times> world \<Rightarrow> bool \<times> widget \<times> world" where
  "saveQuizResult dbError sc tot pct st =
     (case st of (w, wd) \<Rightarrow>
        (case authSession wd of
           None \<Rightarrow>
             (False, w\<lparr>pendingResult := Some \<lparr>score = sc, total = tot, percentage = pct\<rparr>\<rparr>, wd)
         | Some s \<Rightarrow>
             (let row = \<lparr>user_id = user s, row_score = sc, total_questions = tot,
                         row_percentage = pct, page_url = href wd,
                         page_title = documentTitle wd\<rparr>;
                  wd1 = wd\<lparr>insertCalls := insertCalls wd @ [row]\<rparr>
              in case dbError of
                   Some e \<Rightarrow> (False, w, wd1\<lparr>consoleErrors := consoleErrors wd1 @ [e]\<rparr>)
                 | None \<Rightarrow>
                     (True, w\<lparr>resultSaved := True\<rparr>,
                      wd1\<lparr>quiz_results := quiz_results wd1 @ [row]\<rparr>))))"

text \<open>
  The callback that the effect registers with \<^verbatim>\<open>onAuthStateChange\<close>. The
  \<^verbatim>\<open>pendingResult\<close> it tests is not the current state but the value of the render in
  which the effect ran: the first argument, \<open>captured\<close>. The callback awaits
  \<^verbatim>\<open>saveQuizResult\<close> and calls \<^verbatim>\<open>setPendingResult(null)\<close> after it.
\<close>

definition authCallback ::
  "PendingResult option \<Rightarrow> Session option \<Rightarrow> jsstring option \<Rightarrow> widget \<times> world
     \<Rightarrow> widget \<times> world" where
  "authCallback captured sess dbError st =
     (case st of (w, wd) \<Rightarrow>
        (let w1 = w\<lparr>session := sess\<rparr>
         in case sess of
              None \<Rightarrow> (w1, wd)
            | Some _ \<Rightarrow>
                (let w2 = w1\<lparr>showAuthModal := False, authMessage := None,
                              authStep := EmailStep, authOtp := []\<rparr>
                 in case captured of
                      None \<Rightarrow> (w2, wd)
                    | Some p \<Rightarrow>
                        (case saveQuizResult dbError (score p) (total p) (percentage p) (w2, wd) of
                           (_, w3, wd3) \<Rightarrow> (w3\<lparr>pendingResult := None\<rparr>, wd3)))))"

text \<open>
  An auth-state change of the identity provider: the client holds the new session
  (\<open>None\<close> after a sign-out) and notifies the registered callback with it.
\<close>

definition authStateChange ::
  "PendingResult option \<Rightarrow> Session option \<Rightarrow> jsstring option \<Rightarrow> widget \<times> world
     \<Rightarrow> widget \<times> world" where
  "authStateChange captured sess dbError st =
     (case st of (w, wd) \<Rightarrow> authCallback captured sess dbError (w, wd\<lparr>authSession := sess\<rparr>))"

text \<open>
  The effect depends on \<^verbatim>\<open>pendingResult\<close> alone, and it runs again only after a render
  in which that value has changed. Until then the same callback, with the same captured
  value, receives every notification: \<open>authStateChanges captured\<close> delivers a list of
  them to it. A callback registered by a later run of the effect captures the
  \<^verbatim>\<open>pendingResult\<close> of that render.
\<close>

fun authStateChanges ::
  "PendingResult option \<Rightarrow> (Session option \<times> jsstring option) list \<Rightarrow> widget \<times> world
     \<Rightarrow> widget \<times> world" where
  "authStateChanges captured [] st = st"
| "authStateChanges captured ((sess, dbError) # es) st =
     authStateChanges captured es (authStateChange captured sess dbError st)"

text \<open>
  \<^verbatim>\<open>requestQuiz\<close> up to the point where the message is sent, and \<open>quizResponse\<close> for
  the rest of it, run when the background script answers (\<open>Inl\<close> a failure message).
\<close>

definition requestQuiz :: "widget \<times> world \<Rightarrow> widget \<times> world" where
  "requestQuiz st =
     (case st of (w, wd) \<Rightarrow>
        (w\<lparr>status := Loading, error := None, quiz := None, selectedIndex := None,
           showResult := False\<rparr>,
         wd\<lparr>outbox := outbox wd @
               [\<lparr>url = href wd, title = documentTitle wd,
                 req_text = collectPageText (innerText wd), req_count = TOTAL_QUESTIONS\<rparr>]\<rparr>))"

definition quizResponse :: "jsstring + QuizPayload \<Rightarrow> widget \<Rightarrow> widget" where
  "quizResponse r w =
     (case r of
        Inr response \<Rightarrow> w\<lparr>quiz := Some response, status := Ready\<rparr>
      | Inl message \<Rightarrow> w\<lparr>status := Error, error := Some message\<rparr>)"

text \<open>\<^verbatim>\<open>openWidget\<close>.\<close>

definition openWidget :: "widget \<times> world \<Rightarrow> widget \<times> world" where
  "openWidget st =
     (case st of (w, wd) \<Rightarrow>
        (let w1 = w\<lparr>selectedIndex := None, showResult := False, questionIndex := 0,
                     correctCount := 0, isComplete := False, isOpen := True\<rparr>
         in if status w = Idle \<or> status w = Error then requestQuiz (w1, wd) else (w1, wd)))"

text \<open>A click on option button \<open>i\<close>; the buttons are disabled while \<^verbatim>\<open>hasResult\<close> holds.\<close>

definition clickOption :: "nat \<Rightarrow> widget \<Rightarrow> widget" where
  "clickOption i w = (if hasResult w then w else w\<lparr>selectedIndex := Some i\<rparr>)"

text \<open>\<^verbatim>\<open>handleNext\<close>.\<close>

definition handleNext :: "jsstring option \<Rightarrow> widget \<times> world \<Rightarrow> widget \<times> world" where
  "handleNext dbError st =
     (case st of (w, wd) \<Rightarrow>
        (case (currentQuestion w, selectedIndex w) of
           (Some q, Some sel) \<Rightarrow>
             if \<not> showResult w then
               ((if isCorrect sel q then w\<lparr>correctCount := correctCount w + 1\<rparr> else w)
                  \<lparr>showResult := True\<rparr>, wd)
             else if \<not> isLastQuestion w then
               (w\<lparr>questionIndex := questionIndex w + 1, selectedIndex := None,
                  showResult := False\<rparr>, wd)
             else
               (let w1 = w\<lparr>isComplete := True\<rparr>;
                    finalCorrect = (if isCorrect sel q then correctCount w + 1 else correctCount w);
                    pct = percentageOf finalCorrect (totalQuestions w)
                in case saveQuizResult dbError finalCorrect (totalQuestions w) pct (w1, wd) of
                     (_, w2, wd2) \<Rightarrow> (w2, wd2))
         | _ \<Rightarrow> (w, wd)))"

subsection \<open>A sample session\<close>

definition examplePage :: world where
  "examplePage = freshWorld (str ''https://example.org/a'') (str ''A page'') (Some (str ''Some text''))"

definition exampleSession :: Session where
  "exampleSession = \<lparr>user = str ''user-1''\<rparr>"

definition oneQuestionQuiz :: QuizPayload where
  "oneQuestionQuiz =
     \<lparr>questions =
        [\<lparr>question = str ''Q'', options = [str ''a'', str ''b'', str ''c'', str ''d''],
          correctIndex = Fin 0\<rparr>]\<rparr>"

text \<open>
  A signed-in reader opens the widget, receives a quiz of one question, selects the
  correct option, submits the answer and finishes the quiz; every insert succeeds.
\<close>

definition oneQuestionSession :: "widget \<times> world" where
  "oneQuestionSession =
     (let st0 = openWidget (initialWidget, examplePage\<lparr>authSession := Some exampleSession\<rparr>);
          st1 = (quizResponse (Inr oneQuestionQuiz) (fst st0), snd st0);
          st2 = (clickOption 0 (fst st1), snd st1);
          st3 = handleNext None st2
      in handleNext None st3)"

text \<open>
  A reader who is not signed in finishes a quiz with 3 of 5, so the result becomes the
  pending one; the effect runs in the render that follows and registers a callback that
  captures it; the reader signs in, and the auth client notifies that callback twice with
  the session before the effect has run again; both inserts succeed.
\<close>

definition twoSignInNotifications :: "widget \<times> world" where
  "twoSignInNotifications =
     (let st = snd (saveQuizResult None 3 5 (Fin 60) (initialWidget, examplePage))
      in authStateChanges (pendingResult (fst st))
           [(Some exampleSession, None), (Some exampleSession, None)] st)"

section \<open>Backend: the requested question count\<close>

text \<open>
  The \<^verbatim>\<open>count\<close> field of the request body as \<^verbatim>\<open>generateQuiz\<close> receives it:
  absent (\<^verbatim>\<open>undefined\<close>), \<^verbatim>\<open>null\<close>, a number, or any other JSON value (a string,
  a boolean, an array, an object). For the last kind the built-in conversion
  \<^verbatim>\<open>Number(v)\<close> is a parameter of the model; it returns a number (\<open>Inr\<close>) or throws a
  \<^verbatim>\<open>TypeError\<close> (\<open>Inl\<close>), as it does for an object whose \<^verbatim>\<open>valueOf\<close> and
  \<^verbatim>\<open>toString\<close> are not functions.
\<close>

datatype 'v count_field = CountAbsent | CountNull | CountNumber jsnum | CountOther 'v

text \<open>\<^verbatim>\<open>const requestedCount = Number(count ?? 5)\<close>.\<close>

fun requestedCount :: "('v \<Rightarrow> jsstring + jsnum) \<Rightarrow> 'v count_field \<Rightarrow> jsstring + jsnum" where
  "requestedCount toNumber CountAbsent = Inr (Fin 5)"
| "requestedCount toNumber CountNull = Inr (Fin 5)"
| "requestedCount toNumber (CountNumber n) = Inr n"
| "requestedCount toNumber (CountOther v) = toNumber v"

text \<open>
  \<^verbatim>\<open>const questionCount = Number.isFinite(requestedCount) && requestedCount > 0
     ? Math.min(Math.floor(requestedCount), 10) : 5\<close>
\<close>

definition questionCount :: "jsnum \<Rightarrow> jsnum" where
  "questionCount rc =
     (if isFinite rc \<and> gtZero rc then jsMin (jsFloor rc) (Fin 10) else Fin 5)"

section \<open>Backend: the quiz route\<close>

text \<open>A parsed JSON value. In an object a later duplicate of a key replaces the earlier.\<close>

datatype json =
  JNull | JBool bool | JNum jsnum | JStr jsstring | JArr "json list"
  | JObj "(jsstring \<times> json) list"

text \<open>
  Property access \<^verbatim>\<open>payload.k\<close> for the keys the route reads; \<open>None\<close> is
  \<^verbatim>\<open>undefined\<close>. Only an object has such a property.
\<close>

fun member :: "jsstring \<Rightarrow> json \<Rightarrow> json option" where
  "member k (JObj kvs) = map_of (rev kvs) k"
| "member k _ = None"

text \<open>Truthiness, for \<^verbatim>\<open>!payload\<close>.\<close>

fun truthy :: "json \<Rightarrow> bool" where
  "truthy JNull = False"
| "truthy (JBool b) = b"
| "truthy (JNum n) = (n \<noteq> NaN \<and> n \<noteq> Fin 0)"
| "truthy (JStr s) = (s \<noteq> [])"
| "truthy _ = True"

text \<open>
  The holes of the prompt template: the question count, \<^verbatim>\<open>title ?? "Unknown"\<close> as a
  string, the URL and the page text.
\<close>

record Prompt =
  prompt_count :: jsnum
  prompt_title :: jsstring
  prompt_url :: jsstring
  prompt_content :: jsstring

text \<open>
  What the route reaches outside itself. \<open>fetchPageText\<close> is the text fetched from the URL
  and stripped, the empty string when the fetch fails or nothing is left;
  \<open>generateObject\<close> is the call of the language model, \<open>Inl\<close> when it throws (transport
  failure, output that does not fit the schema); \<open>toNumber\<close> is the conversion
  \<^verbatim>\<open>Number(v)\<close> of a value that is neither absent, null nor a number, and
  \<open>toText\<close> the conversion to a string of a title that is not a string, in a template
  literal; either throws a \<^verbatim>\<open>TypeError\<close> (\<open>Inl\<close>) for an object without a primitive
  value.
\<close>

record env =
  fetchPageText :: "jsstring \<Rightarrow> jsstring"
  generateObject :: "Prompt \<Rightarrow> jsstring + QuizPayload"
  toNumber :: "json \<Rightarrow> jsstring + jsnum"
  toText :: "json \<Rightarrow> jsstring + jsstring"

datatype quiz_result = QuizError jsstring | QuizOk QuizPayload jsstring

definition countField :: "json option \<Rightarrow> json count_field" where
  "countField c =
     (case c of
        None \<Rightarrow> CountAbsent
      | Some JNull \<Rightarrow> CountNull
      | Some (JNum n) \<Rightarrow> CountNumber n
      | Some v \<Rightarrow> CountOther v)"

text \<open>\<^verbatim>\<open>${title ?? "Unknown"}\<close>.\<close>

definition promptTitle :: "env \<Rightarrow> json option \<Rightarrow> jsstring + jsstring" where
  "promptTitle ev ttl =
     (case ttl of
        None \<Rightarrow> Inr (str ''Unknown'')
      | Some JNull \<Rightarrow> Inr (str ''Unknown'')
      | Some (JStr t) \<Rightarrow> Inr t
      | Some v \<Rightarrow> toText ev v)"

text \<open>
  \<^verbatim>\<open>generateQuiz\<close>; \<open>Inl\<close> is an exception that leaves the function. The page text is
  settled first, then the count is converted, then the prompt is built, then the model
  is called.
\<close>

definition generateQuiz ::
  "env \<Rightarrow> jsstring \<Rightarrow> json option \<Rightarrow> json option \<Rightarrow> json option \<Rightarrow> jsstring + quiz_result" where
  "generateQuiz ev u ttl txt cnt =
     (let pageText =
            (case txt of
               Some (JStr t) \<Rightarrow>
                 if 0 < length (trim t) then take MAX_TEXT_LENGTH t else fetchPageText ev u
             | _ \<Rightarrow> fetchPageText ev u)
      in if pageText = [] then Inr (QuizError (str ''Unable to extract page text''))
         else
           (case requestedCount (toNumber ev) (countField cnt) of
              Inl e \<Rightarrow> Inl e
            | Inr rc \<Rightarrow>
                (case promptTitle ev ttl of
                   Inl e \<Rightarrow> Inl e
                 | Inr t \<Rightarrow>
                     (case generateObject ev
                             \<lparr>prompt_count = questionCount rc, prompt_title = t,
                              prompt_url = u, prompt_content = pageText\<rparr> of
                        Inl e \<Rightarrow> Inl e
                      | Inr object \<Rightarrow> Inr (QuizOk object u)))))"

datatype response_body = ErrorBody jsstring | QuizBody "QuizItem list" jsstring

record Response =
  statusCode :: nat
  body :: response_body

text \<open>
  \<^verbatim>\<open>handleQuiz\<close>. The argument is the parsed request body, \<open>None\<close> when
  \<^verbatim>\<open>req.json()\<close> rejects. \<open>Inl\<close> is an exception that leaves the handler.
\<close>

definition handleQuiz :: "env \<Rightarrow> json option \<Rightarrow> jsstring + Response" where
  "handleQuiz ev parsed =
     (let payload = (case parsed of None \<Rightarrow> JNull | Some j \<Rightarrow> j)
      in case (truthy payload, member (str ''url'') payload) of
           (True, Some (JStr u)) \<Rightarrow>
             (case generateQuiz ev u (member (str ''title'') payload)
                     (member (str ''text'') payload) (member (str ''count'') payload) of
                Inl e \<Rightarrow> Inl e
              | Inr (QuizError e) \<Rightarrow> Inr \<lparr>statusCode = 400, body = ErrorBody e\<rparr>
              | Inr (QuizOk object u') \<Rightarrow>
                  Inr \<lparr>statusCode = 200, body = QuizBody (questions object) u'\<rparr>)
         | _ \<Rightarrow> Inr \<lparr>statusCode = 400, body = ErrorBody (str ''Missing url'')\<rparr>)"

subsection \<open>A sample request\<close>

text \<open>An environment in which the page cannot be fetched and the model call throws.\<close>

definition modelDown :: env where
  "modelDown =
     \<lparr>fetchPageText = (\<lambda>u. []),
      generateObject = (\<lambda>p. Inl (str ''No object generated'')),
      toNumber = (\<lambda>v. Inr NaN),
      toText = (\<lambda>v. Inr (str ''[object Object]''))\<rparr>"

text \<open>The body \<^verbatim>\<open>{"url": "https://example.org/a", "text": "Some text"}\<close>.\<close>

definition exampleBody :: json where
  "exampleBody =
     JObj [(str ''url'', JStr (str ''https://example.org/a'')),
           (str ''text'', JStr (str ''Some text''))]"

section \<open>Results\<close>

subsection \<open>Rounding to the nearest double\<close>

lemma powi_bitlen:
  assumes "0 < (p::int)"
  shows "(2::rat) powi (bitlen p - 1) \<le> of_int p" and "of_int p < (2::rat) powi (bitlen p)"
proof -
  have b: "2 ^ nat (bitlen p - 1) \<le> p \<and> p < 2 ^ nat (bitlen p)"
    using bitlen_bounds[OF assms] .
  have ge1: "1 \<le> bitlen p" using assms by (auto simp: bitlen_alt_def)
  have "(of_int (2 ^ nat (bitlen p - 1)) :: rat) \<le> of_int p"
    using b by (simp only: of_int_le_iff)
  then show "(2::rat) powi (bitlen p - 1) \<le> of_int p"
    using ge1 by (simp add: power_int_def)
  have "(of_int p :: rat) < of_int (2 ^ nat (bitlen p))"
    using b by (simp only: of_int_less_iff)
  then show "of_int p < (2::rat) powi (bitlen p)"
    using ge1 by (simp add: power_int_def)
qed

lemma ilog2_bounds:
  assumes "0 < a"
  shows "2 powi (ilog2 a) \<le> a \<and> a < 2 powi (ilog2 a + 1)"
proof -
  obtain p q where pq: "quotient_of a = (p, q)" by (cases "quotient_of a")
  have q: "0 < q" using pq by (rule quotient_of_denom_pos)
  have a: "a = of_int p / of_int q" using pq by (rule quotient_of_div)
  have p: "0 < p" using assms q a by (simp add: zero_less_divide_iff)
  define d where "d = bitlen p - bitlen q"
  have lo: "(2::rat) powi (d - 1) \<le> a"
  proof -
    have "(2::rat) powi (d - 1) = 2 powi (bitlen p - 1) / 2 powi (bitlen q)"
      by (simp add: d_def power_int_diff)
    also have "\<dots> \<le> of_int p / 2 powi (bitlen q)"
      using powi_bitlen(1)[OF p] by (simp add: divide_right_mono)
    also have "\<dots> \<le> of_int p / of_int q"
      using powi_bitlen(2)[OF q] p q by (simp add: frac_le)
    finally show ?thesis using a by simp
  qed
  have hi: "a < (2::rat) powi (d + 1)"
  proof -
    have "of_int p / of_int q < (2::rat) powi (bitlen p) / of_int q"
      using powi_bitlen(2)[OF p] q by (simp add: divide_strict_right_mono)
    also have "\<dots> \<le> 2 powi (bitlen p) / 2 powi (bitlen q - 1)"
      using powi_bitlen(1)[OF q] by (simp add: frac_le)
    also have "\<dots> = 2 powi (bitlen p - (bitlen q - 1))"
      by (rule power_int_diff[symmetric]) simp
    also have "\<dots> = 2 powi (d + 1)"
    proof -
      have "bitlen p - (bitlen q - 1) = d + 1" by (simp add: d_def)
      then show ?thesis by (simp only:)
    qed
    finally show ?thesis using a by simp
  qed
  have e: "ilog2 a = (if 2 powi d \<le> a then d else d - 1)"
    by (simp add: ilog2_def pq d_def Let_def)
  show ?thesis using lo hi e by (auto simp: not_le)
qed

lemma ilog2_unique:
  assumes "0 < a" and "2 powi e \<le> a" and "a < 2 powi (e + 1)"
  shows "ilog2 a = e"
proof (rule ccontr)
  assume ne: "ilog2 a \<noteq> e"
  have b: "2 powi (ilog2 a) \<le> a \<and> a < 2 powi (ilog2 a + 1)" using ilog2_bounds[OF assms(1)] .
  show False
  proof (cases "ilog2 a < e")
    case True
    then have "ilog2 a + 1 \<le> e" by simp
    then have "(2::rat) powi (ilog2 a + 1) \<le> 2 powi e" by (simp add: power_int_increasing)
    then show False using b assms(2) by simp
  next
    case False
    then have "e + 1 \<le> ilog2 a" using ne by simp
    then have "(2::rat) powi (e + 1) \<le> 2 powi (ilog2 a)" by (simp add: power_int_increasing)
    then show False using b assms(3) by simp
  qed
qed

lemma roundHalfEven_error: "\<bar>of_int (roundHalfEven x) - x\<bar> \<le> 1/2"
proof -
  have "of_int \<lfloor>x\<rfloor> \<le> x" and "x < of_int \<lfloor>x\<rfloor> + 1" by linarith+
  then show ?thesis
    by (auto simp: roundHalfEven_def Let_def abs_le_iff)
qed

lemma roundDouble_not_NaN: "roundDouble x \<noteq> NaN"
  by (simp add: roundDouble_def Let_def)

lemma roundDouble_error:
  assumes lo: "2 powi (- 1022) \<le> a" and hi: "a < 2 powi 1023"
  shows "\<exists>v. roundDouble a = Fin v \<and> 0 < v \<and> \<bar>v - a\<bar> \<le> a / 2 ^ 53"
proof -
  have pos: "0 < a" using lo by (rule less_le_trans[rotated]) simp
  define e where "e = ilog2 a"
  have b: "2 powi e \<le> a \<and> a < 2 powi (e + 1)"
    unfolding e_def using ilog2_bounds[OF pos] .
  have e_lo: "- 1022 \<le> e"
  proof (rule ccontr)
    assume "\<not> - 1022 \<le> e"
    then have "e + 1 \<le> - 1022" by simp
    then have "(2::rat) powi (e + 1) \<le> 2 powi (- 1022)" by (rule power_int_increasing) simp
    then show False using b lo by simp
  qed
  define u :: rat where "u = 2 powi (e - 52)"
  define m where "m = roundHalfEven (a / u)"
  define v :: rat where "v = of_int m * u"
  have u_pos: "0 < u" by (simp add: u_def)
  have u_eq: "u = 2 powi e / 2 ^ 52" by (simp add: u_def power_int_diff)
  have "\<bar>of_int m - a / u\<bar> \<le> 1/2" unfolding m_def by (rule roundHalfEven_error)
  then have "\<bar>of_int m - a / u\<bar> * u \<le> 1/2 * u"
    using u_pos by (simp add: mult_right_mono)
  moreover have "\<bar>of_int m - a / u\<bar> * u = \<bar>v - a\<bar>"
  proof -
    have "\<bar>of_int m - a / u\<bar> * u = \<bar>(of_int m - a / u) * u\<bar>"
      using u_pos by (simp add: abs_mult)
    also have "(of_int m - a / u) * u = v - a"
      using u_pos by (simp add: v_def algebra_simps)
    finally show ?thesis .
  qed
  ultimately have err_u: "\<bar>v - a\<bar> \<le> u / 2" by simp
  have "u / 2 = 2 powi e / 2 ^ 53" by (simp add: u_eq)
  also have "\<dots> \<le> a / 2 ^ 53" using b by (simp add: divide_right_mono)
  finally have u_le: "u / 2 \<le> a / 2 ^ 53" .
  have err: "\<bar>v - a\<bar> \<le> a / 2 ^ 53" using err_u u_le by simp
  have small: "a / 2 ^ 53 < a" using pos by (simp add: field_simps)
  have v_pos: "0 < v" using err small by linarith
  have "v < 2 * a" using err small by linarith
  also have "\<dots> < 2 * 2 powi 1023" using hi by simp
  also have "\<dots> = 2 powi 1024" by simp
  finally have v_hi: "\<not> 2 powi 1024 \<le> v" by simp
  have mx: "max (ilog2 a) (- 1022) = e" using e_lo by (simp add: e_def)
  have "roundDouble a = Fin v"
    using pos v_hi
    by (simp add: roundDouble_def Let_def mx u_def[symmetric] m_def[symmetric] v_def[symmetric]
             del: power_int_numeral power_int_numeral_neg_numeral)
  then show ?thesis using v_pos err by blast
qed

lemma roundDouble_zero: "roundDouble 0 = Fin 0"
  by (simp add: roundDouble_def)

lemma percentageOf_zero: "0 < t \<Longrightarrow> percentageOf 0 t = Fin 0"
  by (simp add: percentageOf_def roundDouble_zero floor_eq_iff)

lemma half_gap:
  fixes C T k :: int
  assumes T: "0 < T" and C: "0 \<le> C"
    and nt: "(200 * C) mod (2 * T) \<noteq> T"
    and k: "k = \<lfloor>(100 * of_int C / of_int T :: rat) + 1/2\<rfloor>"
  shows "of_int k - 1/2 + 1 / (2 * of_int T) \<le> (100 * of_int C / of_int T :: rat)"
    and "(100 * of_int C / of_int T :: rat) + 1 / (2 * of_int T) \<le> of_int k + 1/2"
proof -
  define z :: rat where "z = 100 * of_int C / of_int T"
  have Tr: "0 < (of_int T :: rat)" using T by simp
  have k1: "of_int k \<le> z + 1/2" and k2: "z + 1/2 < of_int k + 1"
    unfolding k z_def by linarith+
  have zT: "z * of_int T = 100 * of_int C" using Tr by (simp add: z_def)
  have "(of_int k - 1/2) * (2 * of_int T) \<le> z * (2 * of_int T)"
    using k1 Tr by (intro mult_right_mono) auto
  then have "(of_int ((2 * k - 1) * T) :: rat) \<le> of_int (200 * C)"
    using zT by (simp add: algebra_simps)
  then have le1: "(2 * k - 1) * T \<le> 200 * C" by (simp only: of_int_le_iff)
  have ne1: "(2 * k - 1) * T \<noteq> 200 * C"
  proof
    assume eq: "(2 * k - 1) * T = 200 * C"
    have "200 * C = T + (k - 1) * (2 * T)" using eq by (simp add: algebra_simps)
    then have "(200 * C) mod (2 * T) = (T + (k - 1) * (2 * T)) mod (2 * T)" by simp
    also have "\<dots> = T mod (2 * T)" by (rule mod_mult_self1)
    also have "\<dots> = T" using T by simp
    finally show False using nt by simp
  qed
  have "(2 * k - 1) * T + 1 \<le> 200 * C" using le1 ne1 by simp
  then have "(of_int ((2 * k - 1) * T + 1) :: rat) \<le> of_int (200 * C)"
    by (simp only: of_int_le_iff)
  then have "(of_int k - 1/2 + 1 / (2 * of_int T)) * (2 * of_int T) \<le> z * (2 * of_int T)"
    using zT Tr by (simp add: algebra_simps)
  then show "of_int k - 1/2 + 1 / (2 * of_int T) \<le> (100 * of_int C / of_int T :: rat)"
    using Tr unfolding z_def[symmetric] by (simp add: mult_le_cancel_right)
  have "z * (2 * of_int T) < (of_int k + 1/2) * (2 * of_int T)"
    using k2 Tr by (intro mult_strict_right_mono) auto
  then have "(of_int (200 * C) :: rat) < of_int ((2 * k + 1) * T)"
    using zT by (simp add: algebra_simps)
  then have "200 * C < (2 * k + 1) * T" by (simp only: of_int_less_iff)
  then have "200 * C + 1 \<le> (2 * k + 1) * T" by simp
  then have "(of_int (200 * C + 1) :: rat) \<le> of_int ((2 * k + 1) * T)"
    by (simp only: of_int_le_iff)
  then have "(z + 1 / (2 * of_int T)) * (2 * of_int T) \<le> (of_int k + 1/2) * (2 * of_int T)"
    using zT Tr by (simp add: algebra_simps)
  then show "(100 * of_int C / of_int T :: rat) + 1 / (2 * of_int T) \<le> of_int k + 1/2"
    using Tr unfolding z_def[symmetric] by (simp add: mult_le_cancel_right)
qed

lemma percentageOf_close:
  fixes c t :: nat
  assumes t: "0 < t" and c: "0 < c" and cb: "c < 2 ^ 40" and tb: "t < 2 ^ 40"
  shows "\<exists>y1 :: rat. percentageOf c t = Fin (of_int \<lfloor>y1 + 1/2\<rfloor>)
              \<and> \<bar>y1 - 100 * of_nat c / of_nat t\<bar> < 1 / (2 * of_nat t)"
proof -
  define x :: rat where "x = of_nat c / of_nat t"
  define z :: rat where "z = 100 * of_nat c / of_nat t"
  have tr: "0 < (of_nat t :: rat)" and cr: "0 < (of_nat c :: rat)" using t c by simp_all
  have "(of_nat t :: rat) < of_nat (2 ^ 40)" using tb by (simp only: of_nat_less_iff)
  then have tr_hi: "(of_nat t :: rat) < 2 ^ 40" by simp
  have "(of_nat c :: rat) < of_nat (2 ^ 40)" using cb by (simp only: of_nat_less_iff)
  then have cr_hi: "(of_nat c :: rat) < 2 ^ 40" by simp
  have x_pos: "0 < x" using tr cr by (simp add: x_def)
  have zx: "z = 100 * x" by (simp add: z_def x_def)
  have x_lo: "1 / 2 ^ 40 \<le> x"
  proof -
    have "1 / 2 ^ 40 \<le> 1 / (of_nat t :: rat)" using tr tr_hi by (simp add: frac_le)
    also have "\<dots> \<le> of_nat c / of_nat t" using c tr by (simp add: divide_right_mono)
    finally show ?thesis by (simp add: x_def)
  qed
  have x_hi: "x < 2 ^ 40"
  proof -
    have "of_nat c / (of_nat t :: rat) \<le> of_nat c / 1" using t cr by (intro divide_left_mono) auto
    then show ?thesis using cr_hi by (simp add: x_def)
  qed
  have "(2::rat) powi (- 1022) \<le> 2 powi (- 40)" by (rule power_int_increasing) simp_all
  also have "\<dots> = 1 / 2 ^ 40" by simp
  finally have lo1: "(2::rat) powi (- 1022) \<le> 1 / 2 ^ 40" .
  have "(2::rat) ^ 48 = 2 powi 48" by simp
  also have "\<dots> \<le> 2 powi 1022" by (rule power_int_increasing) simp_all
  also have "\<dots> < 2 powi 1023" by (rule power_int_strict_increasing) simp_all
  finally have hi1: "(2::rat) ^ 48 < 2 powi 1023" .
  have "x < 2 ^ 48" using x_hi by (rule less_trans) simp
  then obtain x1 where x1: "roundDouble x = Fin x1" "0 < x1" "\<bar>x1 - x\<bar> \<le> x / 2 ^ 53"
    using roundDouble_error[of x] lo1 x_lo hi1 by (meson less_trans order_trans)
  define y where "y = x1 * 100"
  have x1_lo: "x / 2 \<le> x1" and x1_hi: "x1 \<le> 2 * x"
  proof -
    have "x / 2 ^ 53 \<le> x / 2" using x_pos by (simp add: field_simps)
    then show "x / 2 \<le> x1" "x1 \<le> 2 * x" using x1(3) x_pos by linarith+
  qed
  have y_lo: "1 / 2 ^ 40 \<le> y" using x1_lo x_lo by (simp add: y_def)
  have y_hi: "y < 2 ^ 48" using x1_hi x_hi by (simp add: y_def)
  obtain y1 where y1: "roundDouble y = Fin y1" "\<bar>y1 - y\<bar> \<le> y / 2 ^ 53"
    using roundDouble_error[of y] lo1 y_lo hi1 y_hi by (meson less_trans order_trans)
  have pc: "percentageOf c t = Fin (of_int \<lfloor>y1 + 1/2\<rfloor>)"
    using t x1(1) y1(1) by (simp add: percentageOf_def x_def[symmetric] y_def[symmetric])
  define eps where "eps = x / 2 ^ 53"
  have e1: "\<bar>x1 - x\<bar> \<le> eps" using x1(3) by (simp add: eps_def)
  have "y \<le> 200 * x" using x1_hi by (simp add: y_def)
  then have "y / 2 ^ 53 \<le> 200 * x / 2 ^ 53" by (simp add: divide_right_mono)
  then have e2: "\<bar>y1 - y\<bar> \<le> 200 * eps" using y1(2) by (simp add: eps_def)
  have "\<bar>y1 - z\<bar> \<le> 300 * eps" using e1 e2 unfolding y_def zx by linarith
  also have "\<dots> = 300 * x / 2 ^ 53" by (simp add: eps_def)
  also have "\<dots> < 1 / (2 * of_nat t)"
  proof -
    have "600 * (of_nat c :: rat) < 600 * 2 ^ 40" using cr_hi by simp
    also have "\<dots> < 2 ^ 53" by simp
    finally have "600 * (of_nat c :: rat) < 2 ^ 53" .
    then show ?thesis using tr by (simp add: x_def field_simps)
  qed
  finally have close: "\<bar>y1 - z\<bar> < 1 / (2 * of_nat t)" .
  show ?thesis using pc close unfolding z_def by blast
qed

lemma percentageOf_nearest_aux:
  fixes c t :: nat
  assumes t: "0 < t" and c: "0 < c" and cb: "c < 2 ^ 40" and tb: "t < 2 ^ 40"
    and nt: "(200 * c) mod (2 * t) \<noteq> t"
  shows "percentageOf c t = Fin (of_int \<lfloor>(100 * of_nat c / of_nat t :: rat) + 1/2\<rfloor>)"
proof -
  define z :: rat where "z = 100 * of_nat c / of_nat t"
  obtain y1 where pc: "percentageOf c t = Fin (of_int \<lfloor>y1 + 1/2\<rfloor>)"
    and close: "\<bar>y1 - z\<bar> < 1 / (2 * of_nat t)"
    using percentageOf_close[OF t c cb tb] unfolding z_def by blast
  define k where "k = \<lfloor>z + 1/2\<rfloor>"
  have nt': "(200 * int c) mod (2 * int t) \<noteq> int t"
  proof
    assume "(200 * int c) mod (2 * int t) = int t"
    then have "int ((200 * c) mod (2 * t)) = int t" by (simp add: zmod_int)
    then show False using nt by simp
  qed
  have gap: "of_int k - 1/2 + 1 / (2 * of_nat t) \<le> z" "z + 1 / (2 * of_nat t) \<le> of_int k + 1/2"
    using half_gap[of "int t" "int c" k] t nt' by (simp_all add: k_def z_def)
  have "of_int k \<le> y1 + 1/2" and "y1 + 1/2 < of_int k + 1"
    using close gap by linarith+
  then have "\<lfloor>y1 + 1/2\<rfloor> = k" by (simp add: floor_eq_iff)
  then show ?thesis using pc by (simp add: k_def z_def)
qed


lemma percentageOf_within_half_aux:
  fixes c t :: nat
  assumes t: "0 < t" and c: "0 < c" and cb: "c < 2 ^ 40" and tb: "t < 2 ^ 40"
  shows "\<exists>k. percentageOf c t = Fin (of_int k)
             \<and> \<bar>of_int k - 100 * of_nat c / of_nat t\<bar> \<le> (1/2 :: rat)"
proof -
  define z :: rat where "z = 100 * of_nat c / of_nat t"
  obtain y1 where pc: "percentageOf c t = Fin (of_int \<lfloor>y1 + 1/2\<rfloor>)"
    and close: "\<bar>y1 - z\<bar> < 1 / (2 * of_nat t)"
    using percentageOf_close[OF t c cb tb] unfolding z_def by blast
  define k where "k = \<lfloor>y1 + 1/2\<rfloor>"
  define T where "T = int t"
  define C where "C = int c"
  have Tr: "0 < (of_int T :: rat)" using t by (simp add: T_def)
  have zT: "z * of_int T = 100 * of_int C" using Tr by (simp add: z_def T_def C_def)
  have close': "\<bar>y1 - z\<bar> < 1 / (2 * of_int T)" using close by (simp add: T_def)
  have k1: "of_int k \<le> y1 + 1/2" and k2: "y1 + 1/2 < of_int k + 1"
    unfolding k_def by linarith+
  have up: "of_int k - z < 1/2 + 1 / (2 * of_int T)" using k1 close' by linarith
  have dn: "z - of_int k < 1/2 + 1 / (2 * of_int T)" using k2 close' by linarith
  have "(of_int k - z) * (2 * of_int T) < (1/2 + 1 / (2 * of_int T)) * (2 * of_int T)"
    using up Tr by (intro mult_strict_right_mono) auto
  then have "(of_int (2 * k * T - 200 * C) :: rat) < of_int (T + 1)"
    using zT Tr by (simp add: algebra_simps)
  then have "2 * k * T - 200 * C < T + 1" by (simp only: of_int_less_iff)
  then have "2 * k * T - 200 * C \<le> T" by simp
  then have "(of_int (2 * k * T - 200 * C) :: rat) \<le> of_int T" by (simp only: of_int_le_iff)
  then have "(of_int k - z) * (2 * of_int T) \<le> (1/2) * (2 * of_int T)"
    using zT by (simp add: algebra_simps)
  then have le1: "of_int k - z \<le> 1/2" using Tr by (simp add: mult_le_cancel_right)
  have "(z - of_int k) * (2 * of_int T) < (1/2 + 1 / (2 * of_int T)) * (2 * of_int T)"
    using dn Tr by (intro mult_strict_right_mono) auto
  then have "(of_int (200 * C - 2 * k * T) :: rat) < of_int (T + 1)"
    using zT Tr by (simp add: algebra_simps)
  then have "200 * C - 2 * k * T < T + 1" by (simp only: of_int_less_iff)
  then have "200 * C - 2 * k * T \<le> T" by simp
  then have "(of_int (200 * C - 2 * k * T) :: rat) \<le> of_int T" by (simp only: of_int_le_iff)
  then have "(z - of_int k) * (2 * of_int T) \<le> (1/2) * (2 * of_int T)"
    using zT by (simp add: algebra_simps)
  then have le2: "z - of_int k \<le> 1/2" using Tr by (simp add: mult_le_cancel_right)
  have "\<bar>of_int k - z\<bar> \<le> 1/2" using le1 le2 by linarith
  then show ?thesis using pc unfolding k_def z_def by blast
qed

lemma roundHalfEven_eval:
  assumes "of_int m - 1/2 < x" and "x < of_int m + 1/2"
  shows "roundHalfEven x = m"
proof (cases "of_int m \<le> x")
  case True
  then have "\<lfloor>x\<rfloor> = m" using assms by (simp add: floor_eq_iff)
  then show ?thesis using assms by (simp add: roundHalfEven_def Let_def)
next
  case False
  then have "\<lfloor>x\<rfloor> = m - 1" using assms by (simp add: floor_eq_iff)
  then show ?thesis using assms by (simp add: roundHalfEven_def Let_def)
qed

lemma roundDouble_eval:
  assumes "0 < x" and "2 powi e \<le> x" and "x < 2 powi (e + 1)" and "- 1022 \<le> e"
    and "of_int m - 1/2 < x / 2 powi (e - 52)" and "x / 2 powi (e - 52) < of_int m + 1/2"
    and "of_int m * (2::rat) powi (e - 52) < 2 powi 1024"
  shows "roundDouble x = Fin (of_int m * 2 powi (e - 52))"
proof -
  have e: "ilog2 x = e" using assms(1-3) by (rule ilog2_unique)
  have mx: "max e (- 1022) = e" using assms(4) by simp
  have m: "roundHalfEven (x / 2 powi (e - 52)) = m" using assms(5,6) by (rule roundHalfEven_eval)
  have hi: "\<not> (2::rat) powi 1024 \<le> of_int m * 2 powi (e - 52)" using assms(7) by (simp only: not_le)
  show ?thesis
    using assms(1) hi
    by (simp add: roundDouble_def Let_def e mx m
             del: power_int_numeral power_int_numeral_neg_numeral)
qed

lemma percentageOf_eval:
  assumes "roundDouble (of_nat c / of_nat t) = Fin x1" and "roundDouble (x1 * 100) = Fin y1"
    and "0 < t"
  shows "percentageOf c t = Fin (of_int \<lfloor>y1 + 1/2\<rfloor>)"
  using assms by (simp add: percentageOf_def)

subsection \<open>The requested question count\<close>

lemma questionCount_absent:
  "requestedCount conv CountAbsent = Inr (Fin 5) \<and> requestedCount conv CountNull = Inr (Fin 5)
   \<and> questionCount (Fin 5) = Fin 5"
  by (simp add: questionCount_def floor_eq_iff)

lemma questionCount_not_positive: "a \<le> 0 \<Longrightarrow> questionCount (Fin a) = Fin 5"
  by (simp add: questionCount_def)

lemma questionCount_not_finite:
  "questionCount NaN = Fin 5 \<and> questionCount PosInf = Fin 5 \<and> questionCount NegInf = Fin 5"
  by (simp add: questionCount_def)

lemma questionCount_25: "questionCount (Fin 25) = Fin 10"
  by (simp add: questionCount_def)

lemma questionCount_ge_one:
  assumes "1 \<le> a"
  shows "\<exists>k. questionCount (Fin a) = Fin (of_int k) \<and> 1 \<le> k \<and> k \<le> 10"
proof -
  have pos: "0 < a" using assms by simp
  have fl: "1 \<le> \<lfloor>a\<rfloor>" using assms by simp
  have "questionCount (Fin a) = Fin (of_int (min \<lfloor>a\<rfloor> 10))"
    using pos by (simp add: questionCount_def min_def)
  moreover have "1 \<le> min \<lfloor>a\<rfloor> 10 \<and> min \<lfloor>a\<rfloor> 10 \<le> 10" using fl by simp
  ultimately show ?thesis by blast
qed

lemma questionCount_fraction: "0 < a \<Longrightarrow> a < 1 \<Longrightarrow> questionCount (Fin a) = Fin 0"
  by (simp add: questionCount_def floor_eq_iff)

text \<open>
  C3. The claim is that the question count used by \<^verbatim>\<open>generateQuiz\<close> always lies in
  [1,10]. A request with \<^verbatim>\<open>count: 0.5\<close> passes the guard \<^verbatim>\<open>requestedCount > 0\<close>, is
  floored to 0, and 0 is the count used: the lower bound is missed for every count
  strictly between 0 and 1.
\<close>

theorem questionCount_half_is_zero:
  "requestedCount conv (CountNumber (Fin (1/2))) = Inr (Fin (1/2))
   \<and> questionCount (Fin (1/2)) = Fin 0"
  by (simp add: questionCount_def floor_eq_iff)

subsection \<open>The percentage at quiz completion\<close>

lemma percentageOf_3_5: "percentageOf 3 5 = Fin 60"
proof -
  have a: "roundDouble (of_nat 3 / of_nat 5) = Fin (5404319552844595 / 2 ^ 53)"
    using roundDouble_eval[of "3/5" "- 1" 5404319552844595] by simp
  have b: "roundDouble (5404319552844595 / 2 ^ 53 * 100) = Fin (8444249301319680 / 2 ^ 47)"
    using roundDouble_eval[of "5404319552844595 / 2 ^ 53 * 100" 5 8444249301319680] by simp
  have "percentageOf 3 5 = Fin (of_int \<lfloor>(8444249301319680 / 2 ^ 47 + 1/2 :: rat)\<rfloor>)"
    using a b by (rule percentageOf_eval) simp
  also have "\<lfloor>(8444249301319680 / 2 ^ 47 + 1/2 :: rat)\<rfloor> = 60"
    by (simp add: floor_eq_iff)
  finally show ?thesis by simp
qed

lemma percentageOf_2_3: "percentageOf 2 3 = Fin 67"
proof -
  have a: "roundDouble (of_nat 2 / of_nat 3) = Fin (6004799503160661 / 2 ^ 53)"
    using roundDouble_eval[of "2/3" "- 1" 6004799503160661] by simp
  have b: "roundDouble (6004799503160661 / 2 ^ 53 * 100) = Fin (4691249611844266 / 2 ^ 46)"
    using roundDouble_eval[of "6004799503160661 / 2 ^ 53 * 100" 6 4691249611844266] by simp
  have "percentageOf 2 3 = Fin (of_int \<lfloor>(4691249611844266 / 2 ^ 46 + 1/2 :: rat)\<rfloor>)"
    using a b by (rule percentageOf_eval) simp
  also have "\<lfloor>(4691249611844266 / 2 ^ 46 + 1/2 :: rat)\<rfloor> = 67"
    by (simp add: floor_eq_iff)
  finally show ?thesis by simp
qed

lemma percentageOf_1_8: "percentageOf 1 8 = Fin 13"
proof -
  have a: "roundDouble (of_nat 1 / of_nat 8) = Fin (4503599627370496 / 2 ^ 55)"
    using roundDouble_eval[of "1/8" "- 3" 4503599627370496] by simp
  have b: "roundDouble (4503599627370496 / 2 ^ 55 * 100) = Fin (7036874417766400 / 2 ^ 49)"
    using roundDouble_eval[of "4503599627370496 / 2 ^ 55 * 100" 3 7036874417766400] by simp
  have "percentageOf 1 8 = Fin (of_int \<lfloor>(7036874417766400 / 2 ^ 49 + 1/2 :: rat)\<rfloor>)"
    using a b by (rule percentageOf_eval) simp
  also have "\<lfloor>(7036874417766400 / 2 ^ 49 + 1/2 :: rat)\<rfloor> = 13"
    by (simp add: floor_eq_iff)
  finally show ?thesis by simp
qed

text \<open>
  C7, as stated: for every correct count \<open>c\<close> and total \<open>t > 0\<close> the percentage is
  \<open>100 c / t\<close> rounded to the nearest integer. With 23 correct of 40 the exact value is
  57.5, whose nearest integer is 58 under either convention for ties; the quotient
  \<open>23 / 40\<close> is not a double, the product of its nearest double with 100 is the double
  just below 57.5, and \<^verbatim>\<open>Math.round\<close> gives 57.
\<close>

theorem percentageOf_23_40_not_nearest:
  "percentageOf 23 40 = Fin 57
   \<and> (100 * 23 / 40 :: rat) = 57 + 1/2
   \<and> \<lfloor>(100 * 23 / 40 :: rat) + 1/2\<rfloor> = 58
   \<and> roundHalfEven (100 * 23 / 40) = 58"
proof -
  have a: "roundDouble (of_nat 23 / of_nat 40) = Fin (2589569785738035 / 2 ^ 52)"
    using roundDouble_eval[of "23/40" "- 1" 5179139571476070] by simp
  have b: "roundDouble (2589569785738035 / 2 ^ 52 * 100) = Fin (8092405580431359 / 2 ^ 47)"
    using roundDouble_eval[of "2589569785738035 / 2 ^ 52 * 100" 5 8092405580431359] by simp
  have "percentageOf 23 40 = Fin (of_int \<lfloor>(8092405580431359 / 2 ^ 47 + 1/2 :: rat)\<rfloor>)"
    using a b by (rule percentageOf_eval) simp
  also have "\<lfloor>(8092405580431359 / 2 ^ 47 + 1/2 :: rat)\<rfloor> = 57"
    by (simp add: floor_eq_iff)
  finally have p: "percentageOf 23 40 = Fin 57" by simp
  have f: "\<lfloor>(100 * 23 / 40 :: rat) + 1/2\<rfloor> = 58" by (simp add: floor_eq_iff)
  have "\<lfloor>(100 * 23 / 40 :: rat)\<rfloor> = 57" by (simp add: floor_eq_iff)
  then have r: "roundHalfEven (100 * 23 / 40) = 58"
    by (simp add: roundHalfEven_def Let_def)
  show ?thesis using p f r by simp
qed

text \<open>
  C7, amended: for a correct count and a total below \<open>2\<^sup>4\<^sup>0\<close> (as every count of
  questions is, an array having fewer than \<open>2\<^sup>3\<^sup>2\<close> elements), with the total
  positive, the percentage is an integer nearest to \<open>100 c / t\<close>: it differs from
  \<open>100 c / t\<close> by at most one half. Whenever \<open>100 c / t\<close> is not exactly halfway between
  two integers (\<open>200 c mod 2 t \<noteq> t\<close>) it is \<open>100 c / t\<close> rounded half up; at an exact
  half it is one of the two neighbours, the upper one for 1 of 8 (13) and the lower one
  for 23 of 40 (57). In particular 3 correct of 5 gives 60 and 2 of 3 gives 67.
\<close>

theorem percentageOf_nearest:
  "(0 < t \<and> c < 2 ^ 40 \<and> t < 2 ^ 40
      \<longrightarrow> (\<exists>k. percentageOf c t = Fin (of_int k)
                \<and> \<bar>of_int k - 100 * of_nat c / of_nat t\<bar> \<le> (1/2 :: rat))
          \<and> ((200 * c) mod (2 * t) \<noteq> t
                \<longrightarrow> percentageOf c t
                      = Fin (of_int \<lfloor>(100 * of_nat c / of_nat t :: rat) + 1/2\<rfloor>)))
   \<and> percentageOf 3 5 = Fin 60 \<and> percentageOf 2 3 = Fin 67 \<and> percentageOf 1 8 = Fin 13"
proof -
  have near: "\<exists>k. percentageOf c t = Fin (of_int k)
                \<and> \<bar>of_int k - 100 * of_nat c / of_nat t\<bar> \<le> (1/2 :: rat)"
    if h: "0 < t" "c < 2 ^ 40" "t < 2 ^ 40"
  proof (cases "c = 0")
    case True
    have "percentageOf c t = Fin (of_int 0)" using True h(1) by (simp add: percentageOf_zero)
    moreover have "\<bar>of_int 0 - 100 * of_nat c / of_nat t\<bar> \<le> (1/2 :: rat)" using True by simp
    ultimately show ?thesis by blast
  next
    case False
    then have "0 < c" by simp
    then show ?thesis using h by (intro percentageOf_within_half_aux)
  qed
  have exact: "percentageOf c t = Fin (of_int \<lfloor>(100 * of_nat c / of_nat t :: rat) + 1/2\<rfloor>)"
    if h: "0 < t" "c < 2 ^ 40" "t < 2 ^ 40" "(200 * c) mod (2 * t) \<noteq> t"
  proof (cases "c = 0")
    case True
    then show ?thesis using h(1) by (simp add: percentageOf_zero floor_eq_iff)
  next
    case False
    then have "0 < c" by simp
    then show ?thesis using h by (intro percentageOf_nearest_aux)
  qed
  show ?thesis using near exact percentageOf_3_5 percentageOf_2_3 percentageOf_1_8 by blast
qed

theorem percentageOf_nearest_witness:
  "percentageOf 7 10 = Fin 70
   \<and> (\<exists>k. percentageOf 1 8 = Fin (of_int k) \<and> \<bar>of_int k - 100 * of_nat 1 / of_nat 8\<bar> \<le> (1/2 :: rat))"
proof -
  have h: "(0::nat) < 10 \<and> (7::nat) < 2 ^ 40 \<and> (10::nat) < 2 ^ 40" by simp
  have n: "(200 * 7) mod (2 * 10) \<noteq> (10::nat)" by simp
  have "percentageOf 7 10 = Fin (of_int \<lfloor>(100 * of_nat 7 / of_nat 10 :: rat) + 1/2\<rfloor>)"
    using percentageOf_nearest[of 10 7] h n by blast
  also have "\<lfloor>(100 * of_nat 7 / of_nat 10 :: rat) + 1/2\<rfloor> = 70" by (simp add: floor_eq_iff)
  finally have a: "percentageOf 7 10 = Fin 70" by simp
  have g: "(0::nat) < 8 \<and> (1::nat) < 2 ^ 40 \<and> (8::nat) < 2 ^ 40" by simp
  have b: "\<exists>k. percentageOf 1 8 = Fin (of_int k)
              \<and> \<bar>of_int k - 100 * of_nat 1 / of_nat 8\<bar> \<le> (1/2 :: rat)"
    using percentageOf_nearest[of 8 1] g by blast
  show ?thesis using a b by blast
qed

subsection \<open>The scroll percentage\<close>

lemma jsDiv_Fin_not_NaN: "b \<noteq> 0 \<Longrightarrow> jsDiv (Fin a) (Fin b) \<noteq> NaN"
  by (simp add: roundDouble_not_NaN)

lemma jsMul_100_not_NaN: "x \<noteq> NaN \<Longrightarrow> jsMul x (Fin 100) \<noteq> NaN"
  by (cases x) (simp_all add: roundDouble_not_NaN)

lemma clamp_percent:
  assumes "x \<noteq> NaN"
  shows "\<exists>k. jsMin (Fin 100) (jsMax (Fin 0) (jsRound x)) = Fin (of_int k) \<and> 0 \<le> k \<and> k \<le> 100"
proof (cases x)
  case (Fin a)
  define m where "m = \<lfloor>a + 1/2\<rfloor>"
  have "max 0 (of_int m) = (of_int (max 0 m) :: rat)" by (simp add: of_int_max)
  moreover have "min 100 (of_int (max 0 m)) = (of_int (min 100 (max 0 m)) :: rat)"
    by (simp add: of_int_min)
  ultimately have "jsMin (Fin 100) (jsMax (Fin 0) (jsRound x)) = Fin (of_int (min 100 (max 0 m)))"
    using Fin by (simp add: m_def)
  moreover have "0 \<le> min 100 (max 0 m) \<and> min 100 (max 0 m) \<le> 100" by simp
  ultimately show ?thesis by blast
next
  case PosInf
  then have "jsMin (Fin 100) (jsMax (Fin 0) (jsRound x)) = Fin (of_int 100)" by simp
  then show ?thesis by (intro exI[of _ 100]) simp
next
  case NegInf
  then have "jsMin (Fin 100) (jsMax (Fin 0) (jsRound x)) = Fin (of_int 0)" by simp
  then show ?thesis by (intro exI[of _ 0]) simp
next
  case NaN
  then show ?thesis using assms by simp
qed

text \<open>
  C10. For every scroll offset and every scroll and client height, \<^verbatim>\<open>getScrollPercent\<close>
  returns an integer between 0 and 100, and it returns 100 whenever the document does not
  scroll (\<open>scrollHeight - clientHeight \<le> 0\<close>).
\<close>

theorem getScrollPercent_range:
  "(\<exists>k. getScrollPercent scrollY docScrollTop scrollHeight clientHeight = Fin (of_int k)
        \<and> 0 \<le> k \<and> k \<le> 100)
   \<and> (scrollHeight - clientHeight \<le> 0
        \<longrightarrow> getScrollPercent scrollY docScrollTop scrollHeight clientHeight = Fin 100)"
proof (cases "scrollHeight - clientHeight \<le> 0")
  case True
  then have "getScrollPercent scrollY docScrollTop scrollHeight clientHeight = Fin (of_int 100)"
    by (simp add: getScrollPercent_def)
  then show ?thesis by (intro conjI exI[of _ 100]) simp_all
next
  case False
  define top where "top = (if scrollY \<noteq> 0 then scrollY else docScrollTop)"
  define raw where
    "raw = jsMul (jsDiv (Fin top) (Fin (of_int (scrollHeight - clientHeight)))) (Fin 100)"
  have "(of_int (scrollHeight - clientHeight) :: rat) \<noteq> 0" using False by simp
  then have "jsDiv (Fin top) (Fin (of_int (scrollHeight - clientHeight))) \<noteq> NaN"
    by (rule jsDiv_Fin_not_NaN)
  then have "raw \<noteq> NaN" unfolding raw_def by (rule jsMul_100_not_NaN)
  then have "\<exists>k. jsMin (Fin 100) (jsMax (Fin 0) (jsRound raw)) = Fin (of_int k) \<and> 0 \<le> k \<and> k \<le> 100"
    by (rule clamp_percent)
  moreover have "getScrollPercent scrollY docScrollTop scrollHeight clientHeight
                   = jsMin (Fin 100) (jsMax (Fin 0) (jsRound raw))"
    using False by (simp add: getScrollPercent_def Let_def raw_def top_def)
  ultimately show ?thesis using False by simp
qed

theorem getScrollPercent_range_witness:
  "(600::int) - 800 \<le> 0 \<and> getScrollPercent 0 0 600 800 = Fin 100"
  using getScrollPercent_range[of 0 0 600 800] by simp

subsection \<open>The collected page text\<close>

lemma isSpace_space: "isSpace 0x20"
  by (simp add: isSpace_def)

lemma collapseSpaces_hd:
  "collapseSpaces xs = y # ys \<Longrightarrow> isSpace y \<longleftrightarrow> isSpace (hd xs)"
  by (cases xs) (auto simp: isSpace_space split: if_splits)

lemma collapseSpaces_Nil: "collapseSpaces xs = [] \<longleftrightarrow> xs = []"
  by (cases xs) auto

lemma noAdjacentSpaces_Cons:
  "noAdjacentSpaces (a # xs) \<longleftrightarrow> (xs = [] \<or> \<not> (isSpace a \<and> isSpace (hd xs))) \<and> noAdjacentSpaces xs"
  by (cases xs) auto

lemma noAdjacentSpaces_collapseSpaces: "noAdjacentSpaces (collapseSpaces s)"
proof (induction s rule: collapseSpaces.induct)
  case 1
  show ?case by simp
next
  case (2 c cs)
  show ?case
  proof (cases "isSpace c")
    case True
    let ?d = "dropWhile isSpace cs"
    have ih: "noAdjacentSpaces (collapseSpaces ?d)" using 2(1)[OF True] .
    have "collapseSpaces ?d = [] \<or> \<not> isSpace (hd (collapseSpaces ?d))"
    proof (cases "collapseSpaces ?d")
      case Nil
      then show ?thesis by simp
    next
      case (Cons y ys)
      then have "?d \<noteq> []" by (metis collapseSpaces_Nil list.distinct(1))
      then have "\<not> isSpace (hd ?d)" by (rule hd_dropWhile)
      then show ?thesis using collapseSpaces_hd[OF Cons] Cons by simp
    qed
    then show ?thesis using True ih by (auto simp: noAdjacentSpaces_Cons)
  next
    case False
    then show ?thesis using 2(2)[OF False] by (simp add: noAdjacentSpaces_Cons)
  qed
qed

lemma noAdjacentSpaces_take: "noAdjacentSpaces xs \<Longrightarrow> noAdjacentSpaces (take n xs)"
proof (induction xs arbitrary: n)
  case Nil
  show ?case by simp
next
  case (Cons a xs)
  show ?case
  proof (cases n)
    case 0
    then show ?thesis by simp
  next
    case (Suc m)
    have tl: "noAdjacentSpaces (take m xs)" using Cons by (simp add: noAdjacentSpaces_Cons)
    have "take m xs = [] \<or> hd (take m xs) = hd xs" by (cases m; cases xs) auto
    moreover have "take m xs \<noteq> [] \<Longrightarrow> xs \<noteq> []" by auto
    ultimately show ?thesis using Cons.prems tl Suc
      by (auto simp: noAdjacentSpaces_Cons)
  qed
qed

lemma noAdjacentSpaces_drop: "noAdjacentSpaces xs \<Longrightarrow> noAdjacentSpaces (drop n xs)"
proof (induction xs arbitrary: n)
  case Nil
  show ?case by simp
next
  case (Cons a xs)
  then show ?case by (cases n) (auto simp: noAdjacentSpaces_Cons)
qed

lemma rev_dropWhile_rev_take: "rev (dropWhile P (rev xs)) = take (length (rev (dropWhile P (rev xs)))) xs"
proof -
  have "rev xs = takeWhile P (rev xs) @ dropWhile P (rev xs)" by simp
  then have "xs = rev (dropWhile P (rev xs)) @ rev (takeWhile P (rev xs))"
    by (metis rev_append rev_rev_ident)
  then show ?thesis by (metis append_eq_conv_conj)
qed

lemma trim_take_drop: "\<exists>n. trim s = take n (dropWhile isSpace s)"
  unfolding trim_def using rev_dropWhile_rev_take[of isSpace "dropWhile isSpace s"] by blast

lemma noAdjacentSpaces_trim: "noAdjacentSpaces s \<Longrightarrow> noAdjacentSpaces (trim s)"
proof -
  assume a: "noAdjacentSpaces s"
  have "noAdjacentSpaces (dropWhile isSpace s)"
    using a by (simp add: dropWhile_eq_drop noAdjacentSpaces_drop)
  then show ?thesis using trim_take_drop[of s] by (auto simp: noAdjacentSpaces_take)
qed

lemma trim_hd: "trim s \<noteq> [] \<Longrightarrow> \<not> isSpace (hd (trim s))"
proof -
  assume ne: "trim s \<noteq> []"
  obtain n where n: "trim s = take n (dropWhile isSpace s)" using trim_take_drop by blast
  have d: "dropWhile isSpace s \<noteq> []" and "n \<noteq> 0" using ne n by auto
  then have "hd (trim s) = hd (dropWhile isSpace s)" using n by (simp add: hd_take)
  then show ?thesis using hd_dropWhile[OF d] by simp
qed

lemma trim_last: "trim s \<noteq> [] \<Longrightarrow> \<not> isSpace (last (trim s))"
proof -
  assume ne: "trim s \<noteq> []"
  let ?ys = "dropWhile isSpace (rev (dropWhile isSpace s))"
  have ys: "?ys \<noteq> []" using ne by (simp add: trim_def)
  have "last (trim s) = hd ?ys" using ys by (simp add: trim_def last_rev)
  then show ?thesis using hd_dropWhile[OF ys] by simp
qed

lemma collapseSpaces_spaces: "c \<in> set (collapseSpaces s) \<Longrightarrow> isSpace c \<Longrightarrow> c = 0x20"
proof (induction s rule: collapseSpaces.induct)
  case 1
  then show ?case by simp
next
  case (2 d ds)
  then show ?case by (auto split: if_splits)
qed

lemma set_trim: "set (trim s) \<subseteq> set s"
proof -
  obtain n where "trim s = take n (dropWhile isSpace s)" using trim_take_drop by blast
  then show ?thesis using set_take_subset set_dropWhileD by fastforce
qed

lemma collapseSpaces_replicate:
  "\<not> isSpace a \<Longrightarrow> collapseSpaces (replicate n a @ ys) = replicate n a @ collapseSpaces ys"
  by (induction n) simp_all

lemma trim_no_outer_space:
  assumes "xs \<noteq> []" and "\<not> isSpace (hd xs)" and "\<not> isSpace (last xs)"
  shows "trim xs = xs"
proof -
  have 1: "dropWhile isSpace xs = xs" using assms(1,2) by (cases xs) auto
  have "rev xs \<noteq> []" and "\<not> isSpace (hd (rev xs))" using assms(1,3) by (simp_all add: hd_rev)
  then have 2: "dropWhile isSpace (rev xs) = rev xs" by (cases "rev xs") auto
  show ?thesis by (simp add: trim_def 1 2)
qed

lemma collect_cut_at_space:
  assumes a: "\<not> isSpace a" and b: "\<not> isSpace b" and n: "0 < n"
  shows "take (Suc n) (trim (collapseSpaces (replicate n a @ [0x20, b]))) = replicate n a @ [0x20]"
proof -
  have c: "collapseSpaces (replicate n a @ [0x20, b]) = replicate n a @ [0x20, b]"
    using a b by (simp add: collapseSpaces_replicate isSpace_space)
  have h: "hd (replicate n a @ [0x20, b]) = a" using n by (cases n) simp_all
  have "trim (replicate n a @ [0x20, b]) = replicate n a @ [0x20, b]"
    using a b h by (intro trim_no_outer_space) simp_all
  then show ?thesis using c by simp
qed

text \<open>
  C6, as stated: the collected text never ends in white space. The text is trimmed before
  it is cut to 9000 code units, so the cut can end on the single space between two words:
  8999 letters, a space and one more letter give 8999 letters followed by a space.
\<close>

theorem collectPageText_trailing_space:
  "collectPageText (Some (replicate 8999 0x61 @ [0x20, 0x62])) = replicate 8999 0x61 @ [0x20]
   \<and> isSpace (last (collectPageText (Some (replicate 8999 0x61 @ [0x20, 0x62]))))"
proof -
  have a: "\<not> isSpace 0x61" and b: "\<not> isSpace 0x62" by (simp_all add: isSpace_def)
  have m: "MAX_TEXT_LENGTH = Suc 8999" by (simp add: MAX_TEXT_LENGTH_def)
  have "collectPageText (Some (replicate 8999 0x61 @ [0x20, 0x62]))
          = take (Suc 8999) (trim (collapseSpaces (replicate 8999 0x61 @ [0x20, 0x62])))"
    by (simp only: collectPageText_def Let_def option.case m)
  also have "\<dots> = replicate 8999 0x61 @ [0x20]"
    using a b by (rule collect_cut_at_space) simp
  finally have r: "collectPageText (Some (replicate 8999 0x61 @ [0x20, 0x62]))
                     = replicate 8999 0x61 @ [0x20]" .
  show ?thesis unfolding r by (simp add: isSpace_space)
qed

text \<open>
  C6, amended: for every source document the collected text has at most 9000 code units,
  contains no two adjacent white-space characters, contains no white space other than
  single spaces, and does not begin with white space; it does not end with white space
  either whenever the collapsed and trimmed text has at most 9000 code units (a longer
  text is cut at 9000 and can end in one space).
\<close>

theorem collectPageText_normalized:
  "length (collectPageText bodyText) \<le> 9000
   \<and> noAdjacentSpaces (collectPageText bodyText)
   \<and> (\<forall>c \<in> set (collectPageText bodyText). isSpace c \<longrightarrow> c = 0x20)
   \<and> (collectPageText bodyText \<noteq> [] \<longrightarrow> \<not> isSpace (hd (collectPageText bodyText)))
   \<and> (length (trim (collapseSpaces (case bodyText of None \<Rightarrow> [] | Some t \<Rightarrow> t))) \<le> 9000
        \<and> collectPageText bodyText \<noteq> []
        \<longrightarrow> \<not> isSpace (last (collectPageText bodyText)))"
proof -
  define raw where "raw = (case bodyText of None \<Rightarrow> [] | Some t \<Rightarrow> t)"
  define n where "n = trim (collapseSpaces raw)"
  have r: "collectPageText bodyText = take 9000 n"
    by (simp add: collectPageText_def raw_def n_def MAX_TEXT_LENGTH_def)
  have 1: "length (take 9000 n) \<le> 9000" by simp
  have 2: "noAdjacentSpaces (take 9000 n)"
    unfolding n_def
    by (intro noAdjacentSpaces_take noAdjacentSpaces_trim noAdjacentSpaces_collapseSpaces)
  have 3: "\<forall>c \<in> set (take 9000 n). isSpace c \<longrightarrow> c = 0x20"
  proof (intro ballI impI)
    fix c assume "c \<in> set (take 9000 n)" and sp: "isSpace c"
    then have "c \<in> set n" by (meson in_set_takeD)
    then have "c \<in> set (collapseSpaces raw)" unfolding n_def using set_trim by blast
    then show "c = 0x20" using sp by (rule collapseSpaces_spaces)
  qed
  have 4: "take 9000 n \<noteq> [] \<longrightarrow> \<not> isSpace (hd (take 9000 n))"
  proof
    assume ne: "take 9000 n \<noteq> []"
    then have "n \<noteq> []" by auto
    then have "\<not> isSpace (hd n)" unfolding n_def by (rule trim_hd)
    moreover have "hd (take 9000 n) = hd n" by (simp add: hd_take)
    ultimately show "\<not> isSpace (hd (take 9000 n))" by simp
  qed
  have 5: "length n \<le> 9000 \<and> take 9000 n \<noteq> [] \<longrightarrow> \<not> isSpace (last (take 9000 n))"
  proof
    assume h: "length n \<le> 9000 \<and> take 9000 n \<noteq> []"
    then have t: "take 9000 n = n" by simp
    then have "n \<noteq> []" using h by simp
    then have "\<not> isSpace (last n)" unfolding n_def by (rule trim_last)
    then show "\<not> isSpace (last (take 9000 n))" using t by simp
  qed
  show ?thesis unfolding r using 1 2 3 4 5 by (simp add: n_def raw_def)
qed

theorem collectPageText_normalized_witness:
  "collectPageText (Some [0x20, 0x61, 0x9, 0xA, 0x62, 0x20]) = [0x61, 0x20, 0x62]
   \<and> length (collectPageText (Some [0x20, 0x61, 0x9, 0xA, 0x62, 0x20])) \<le> 9000
   \<and> \<not> isSpace (hd (collectPageText (Some [0x20, 0x61, 0x9, 0xA, 0x62, 0x20])))
   \<and> \<not> isSpace (last (collectPageText (Some [0x20, 0x61, 0x9, 0xA, 0x62, 0x20])))"
proof -
  have e: "collectPageText (Some [0x20, 0x61, 0x9, 0xA, 0x62, 0x20]) = [0x61, 0x20, 0x62]"
    by (simp add: collectPageText_def trim_def isSpace_def MAX_TEXT_LENGTH_def)
  have t: "trim (collapseSpaces [0x20, 0x61, 0x9, 0xA, 0x62, 0x20]) = [0x61, 0x20, 0x62]"
    by (simp add: trim_def isSpace_def)
  show ?thesis
    using collectPageText_normalized[of "Some [0x20, 0x61, 0x9, 0xA, 0x62, 0x20]"] e t
    by simp
qed

subsection \<open>The validity predicate\<close>

text \<open>
  C2, as stated: every payload accepted by \<^verbatim>\<open>isQuizPayload\<close> has a \<^verbatim>\<open>correctIndex\<close>
  in \<open>{0,1,2,3}\<close> in every question. The predicate looks at the number of questions and
  at the number of options only: a question with four options and \<^verbatim>\<open>correctIndex\<close> 7 is
  accepted.
\<close>

theorem isQuizPayload_ignores_correctIndex:
  "isQuizPayload
     (Some \<lparr>questions =
        [\<lparr>question = str ''Q'', options = [str ''a'', str ''b'', str ''c'', str ''d''],
          correctIndex = Fin 7\<rparr>]\<rparr>)
   \<and> correctIndex
        \<lparr>question = str ''Q'', options = [str ''a'', str ''b'', str ''c'', str ''d''],
         correctIndex = Fin 7\<rparr> \<notin> {Fin 0, Fin 1, Fin 2, Fin 3}"
  by (simp add: isQuizPayload_def)

text \<open>
  C2, amended: every payload accepted by \<^verbatim>\<open>isQuizPayload\<close> is not null, has at least one
  question, and every question has exactly 4 options.
\<close>

theorem isQuizPayload_sound:
  "isQuizPayload v \<Longrightarrow>
     \<exists>p. v = Some p \<and> 1 \<le> length (questions p)
         \<and> (\<forall>item \<in> set (questions p). length (options item) = 4)"
  by (cases v) (auto simp: isQuizPayload_def list_all_iff Suc_le_eq)

theorem isQuizPayload_sound_witness:
  "isQuizPayload
     (Some \<lparr>questions =
        [\<lparr>question = str ''Q'', options = [str ''a'', str ''b'', str ''c'', str ''d''],
          correctIndex = Fin 2\<rparr>]\<rparr>)
   \<and> (\<exists>p. Some \<lparr>questions =
               [\<lparr>question = str ''Q'', options = [str ''a'', str ''b'', str ''c'', str ''d''],
                 correctIndex = Fin 2\<rparr>]\<rparr> = Some p
          \<and> 1 \<le> length (questions p)
          \<and> (\<forall>item \<in> set (questions p). length (options item) = 4))"
proof -
  have h: "isQuizPayload
     (Some \<lparr>questions =
        [\<lparr>question = str ''Q'', options = [str ''a'', str ''b'', str ''c'', str ''d''],
          correctIndex = Fin 2\<rparr>]\<rparr>)"
    by (simp add: isQuizPayload_def)
  show ?thesis using h isQuizPayload_sound[OF h] by blast
qed

subsection \<open>Saving a result\<close>

text \<open>
  C5. With an authenticated session \<^verbatim>\<open>saveQuizResult\<close> issues one insert of the tuple,
  tagged with the user id of the session, the URL and the title of the page, and returns
  whether the insert succeeded; a failed insert is written to the console and changes
  nothing else. Without a session the tuple replaces the pending result, nothing is
  inserted, and the call returns false.
\<close>

theorem saveQuizResult_cases:
  "(case saveQuizResult dbError sc tot pct (w, wd) of (saved, w', wd') \<Rightarrow>
      (\<forall>s. authSession wd = Some s \<longrightarrow>
         insertCalls wd' = insertCalls wd @
            [\<lparr>user_id = user s, row_score = sc, total_questions = tot, row_percentage = pct,
              page_url = href wd, page_title = documentTitle wd\<rparr>]
         \<and> saved = (dbError = None)
         \<and> (dbError = None \<longrightarrow>
               quiz_results wd' = quiz_results wd @
                 [\<lparr>user_id = user s, row_score = sc, total_questions = tot,
                   row_percentage = pct, page_url = href wd, page_title = documentTitle wd\<rparr>]
               \<and> consoleErrors wd' = consoleErrors wd \<and> w' = w\<lparr>resultSaved := True\<rparr>)
         \<and> (\<forall>e. dbError = Some e \<longrightarrow>
               quiz_results wd' = quiz_results wd
               \<and> consoleErrors wd' = consoleErrors wd @ [e] \<and> w' = w)
         \<and> pendingResult w' = pendingResult w)
    \<and> (authSession wd = None \<longrightarrow>
         saved = False
         \<and> w' = w\<lparr>pendingResult := Some \<lparr>score = sc, total = tot, percentage = pct\<rparr>\<rparr>
         \<and> wd' = wd))"
  by (cases "authSession wd"; cases dbError) (simp_all add: saveQuizResult_def Let_def)

theorem saveQuizResult_cases_witness:
  "saveQuizResult None 3 5 (Fin 60) (initialWidget, examplePage)
     = (False, initialWidget\<lparr>pendingResult := Some \<lparr>score = 3, total = 5, percentage = Fin 60\<rparr>\<rparr>,
        examplePage)
   \<and> fst (saveQuizResult None 3 5 (Fin 60)
             (initialWidget, examplePage\<lparr>authSession := Some exampleSession\<rparr>)) = True"
proof -
  have n: "authSession examplePage = None" by (simp add: examplePage_def freshWorld_def)
  have s: "authSession (examplePage\<lparr>authSession := Some exampleSession\<rparr>) = Some exampleSession"
    by simp
  have a: "saveQuizResult None 3 5 (Fin 60) (initialWidget, examplePage)
     = (False, initialWidget\<lparr>pendingResult := Some \<lparr>score = 3, total = 5, percentage = Fin 60\<rparr>\<rparr>,
        examplePage)"
    using saveQuizResult_cases[where dbError = None and sc = 3 and tot = 5 and pct = "Fin 60"
            and w = initialWidget and wd = examplePage] n
    by (cases "saveQuizResult None 3 5 (Fin 60) (initialWidget, examplePage)") simp
  have b: "fst (saveQuizResult None 3 5 (Fin 60)
             (initialWidget, examplePage\<lparr>authSession := Some exampleSession\<rparr>)) = True"
    using saveQuizResult_cases[where dbError = None and sc = 3 and tot = 5 and pct = "Fin 60"
            and w = initialWidget and wd = "examplePage\<lparr>authSession := Some exampleSession\<rparr>"] s
    by (cases "saveQuizResult None 3 5 (Fin 60)
             (initialWidget, examplePage\<lparr>authSession := Some exampleSession\<rparr>)") simp
  show ?thesis using a b by simp
qed

subsection \<open>The pending result\<close>

text \<open>A callback that captured no pending result inserts nothing.\<close>

lemma authStateChanges_captured_none:
  "insertCalls (snd (authStateChanges None es st)) = insertCalls (snd st)
   \<and> quiz_results (snd (authStateChanges None es st)) = quiz_results (snd st)
   \<and> pendingResult (fst (authStateChanges None es st)) = pendingResult (fst st)"
proof (induction es arbitrary: st)
  case Nil
  show ?case by simp
next
  case (Cons ev es)
  obtain sess e where ev: "ev = (sess, e)" by (cases ev)
  obtain w wd where st: "st = (w, wd)" by (cases st)
  have step: "insertCalls (snd (authStateChange None sess e (w, wd))) = insertCalls wd
              \<and> quiz_results (snd (authStateChange None sess e (w, wd))) = quiz_results wd
              \<and> pendingResult (fst (authStateChange None sess e (w, wd))) = pendingResult w"
    by (cases sess) (simp_all add: authStateChange_def authCallback_def Let_def)
  show ?case using Cons.IH[of "authStateChange None sess e (w, wd)"] step by (simp add: ev st)
qed

text \<open>
  A notification with a session, delivered to a callback that captured the pending
  result \<open>p\<close>, issues one insert of \<open>p\<close> and empties the slot, whatever the slot holds
  by then.
\<close>

lemma authStateChange_flush:
  assumes "authStateChange (Some p) (Some s) dbError (w, wd) = (w', wd')"
  shows "pendingResult w' = None
         \<and> insertCalls wd' = insertCalls wd @
              [\<lparr>user_id = user s, row_score = score p, total_questions = total p,
                row_percentage = percentage p, page_url = href wd,
                page_title = documentTitle wd\<rparr>]
         \<and> quiz_results wd' =
              (if dbError = None
               then quiz_results wd @
                 [\<lparr>user_id = user s, row_score = score p, total_questions = total p,
                   row_percentage = percentage p, page_url = href wd,
                   page_title = documentTitle wd\<rparr>]
               else quiz_results wd)
         \<and> href wd' = href wd \<and> documentTitle wd' = documentTitle wd"
  using assms
  by (cases dbError)
     (auto simp: authStateChange_def authCallback_def saveQuizResult_def Let_def)

text \<open>
  Every notification with a session that reaches the same callback inserts the captured
  result once more.
\<close>

lemma authStateChanges_inserts_each_time:
  "length (insertCalls (snd (authStateChanges (Some p) es st)))
     = length (insertCalls (snd st)) + length (filter (\<lambda>ev. fst ev \<noteq> None) es)"
proof (induction es arbitrary: st)
  case Nil
  show ?case by simp
next
  case (Cons ev es)
  obtain sess e where ev: "ev = (sess, e)" by (cases ev)
  obtain w wd where st: "st = (w, wd)" by (cases st)
  obtain w' wd' where step: "authStateChange (Some p) sess e (w, wd) = (w', wd')"
    by (cases "authStateChange (Some p) sess e (w, wd)")
  have n: "length (insertCalls wd') = length (insertCalls wd) + (if sess \<noteq> None then 1 else 0)"
  proof (cases sess)
    case None
    then show ?thesis using step by (auto simp: authStateChange_def authCallback_def Let_def)
  next
    case (Some s)
    then show ?thesis using authStateChange_flush[of p s e w wd w' wd'] step by simp
  qed
  show ?case using Cons.IH[of "(w', wd')"] n by (simp add: ev st step)
qed

text \<open>
  C4. The claim is that a pending result is inserted exactly once at the next sign-in and
  that no later sign-in event inserts it again. In the sample run the callback that
  captured the pending result 3 of 5 is notified twice with the session before the
  effect has registered a new one: it inserts the same result twice, and both rows are
  stored.
\<close>

theorem pending_result_inserted_twice:
  "insertCalls (snd twoSignInNotifications)
     = [\<lparr>user_id = user exampleSession, row_score = 3, total_questions = 5,
          row_percentage = Fin 60, page_url = href examplePage,
          page_title = documentTitle examplePage\<rparr>,
        \<lparr>user_id = user exampleSession, row_score = 3, total_questions = 5,
          row_percentage = Fin 60, page_url = href examplePage,
          page_title = documentTitle examplePage\<rparr>]
   \<and> quiz_results (snd twoSignInNotifications) = insertCalls (snd twoSignInNotifications)
   \<and> pendingResult (fst twoSignInNotifications) = None"
proof -
  define p where "p = \<lparr>score = 3, total = 5, percentage = Fin 60\<rparr>"
  have n: "authSession examplePage = None" and i: "insertCalls examplePage = []"
    and q: "quiz_results examplePage = []"
    by (simp_all add: examplePage_def freshWorld_def)
  have save: "saveQuizResult None 3 5 (Fin 60) (initialWidget, examplePage)
                = (False, initialWidget\<lparr>pendingResult := Some p\<rparr>, examplePage)"
    using n by (simp add: saveQuizResult_def p_def)
  obtain w1 wd1 where first:
    "authStateChange (Some p) (Some exampleSession) None
       (initialWidget\<lparr>pendingResult := Some p\<rparr>, examplePage) = (w1, wd1)"
    by (cases "authStateChange (Some p) (Some exampleSession) None
                 (initialWidget\<lparr>pendingResult := Some p\<rparr>, examplePage)")
  obtain w2 wd2 where second:
    "authStateChange (Some p) (Some exampleSession) None (w1, wd1) = (w2, wd2)"
    by (cases "authStateChange (Some p) (Some exampleSession) None (w1, wd1)")
  have f1: "insertCalls wd1 =
              [\<lparr>user_id = user exampleSession, row_score = 3, total_questions = 5,
                row_percentage = Fin 60, page_url = href examplePage,
                page_title = documentTitle examplePage\<rparr>]
            \<and> quiz_results wd1 = insertCalls wd1
            \<and> href wd1 = href examplePage \<and> documentTitle wd1 = documentTitle examplePage"
    using authStateChange_flush[OF first] i q by (simp add: p_def)
  have f2: "insertCalls wd2 = insertCalls wd1 @
              [\<lparr>user_id = user exampleSession, row_score = 3, total_questions = 5,
                row_percentage = Fin 60, page_url = href examplePage,
                page_title = documentTitle examplePage\<rparr>]
            \<and> quiz_results wd2 = insertCalls wd2 \<and> pendingResult w2 = None"
    using authStateChange_flush[OF second] f1 by (simp add: p_def)
  have run: "twoSignInNotifications = (w2, wd2)"
    by (simp add: twoSignInNotifications_def Let_def save first second)
  show ?thesis using f1 f2 by (simp add: run)
qed

subsection \<open>Reopening the widget\<close>

text \<open>
  C9. In every state \<^verbatim>\<open>openWidget\<close> clears the selection, hides the result, and sets the
  question index to 0, the correct count to 0 and the completion flag to false. It sends
  a quiz request exactly when the status was idle or error; otherwise the payload, the
  status and everything outside the widget are unchanged.
\<close>

theorem openWidget_resets:
  "(case openWidget (w, wd) of (w', wd') \<Rightarrow>
      selectedIndex w' = None \<and> \<not> showResult w' \<and> questionIndex w' = 0
      \<and> correctCount w' = 0 \<and> \<not> isComplete w'
      \<and> (outbox wd' \<noteq> outbox wd \<longleftrightarrow> status w = Idle \<or> status w = Error)
      \<and> (status w = Idle \<or> status w = Error \<longrightarrow>
            outbox wd' = outbox wd @
              [\<lparr>url = href wd, title = documentTitle wd,
                req_text = collectPageText (innerText wd), req_count = 5\<rparr>])
      \<and> (\<not> (status w = Idle \<or> status w = Error) \<longrightarrow>
            quiz w' = quiz w \<and> status w' = status w \<and> wd' = wd))"
  by (simp add: openWidget_def requestQuiz_def Let_def TOTAL_QUESTIONS_def)

theorem openWidget_resets_witness:
  "status (fst oneQuestionSession) = Ready
   \<and> isComplete (fst oneQuestionSession)
   \<and> correctCount (fst oneQuestionSession) = 1
   \<and> \<not> isComplete (fst (openWidget oneQuestionSession))
   \<and> correctCount (fst (openWidget oneQuestionSession)) = 0
   \<and> questionIndex (fst (openWidget oneQuestionSession)) = 0
   \<and> quiz (fst (openWidget oneQuestionSession)) = Some oneQuestionQuiz
   \<and> outbox (snd (openWidget oneQuestionSession)) = outbox (snd oneQuestionSession)"
proof -
  obtain w wd where st: "oneQuestionSession = (w, wd)" by (cases oneQuestionSession)
  have q: "isQuizPayload (Some oneQuestionQuiz)"
    by (simp add: isQuizPayload_def oneQuestionQuiz_def)
  have run: "status w = Ready \<and> isComplete w \<and> correctCount w = 1 \<and> quiz w = Some oneQuestionQuiz"
    using st q
    by (auto simp: oneQuestionSession_def Let_def openWidget_def requestQuiz_def
          initialWidget_def quizResponse_def clickOption_def hasResult_def currentQuestion_def
          quizData_def handleNext_def isCorrect_def isLastQuestion_def totalQuestions_def
          saveQuizResult_def oneQuestionQuiz_def split: if_splits)
  obtain w' wd' where o: "openWidget (w, wd) = (w', wd')" by (cases "openWidget (w, wd)")
  show ?thesis using openWidget_resets[where w = w and wd = wd] run by (simp add: st o)
qed

subsection \<open>The final score\<close>

lemma handleNext_submit_then_finish:
  assumes cq: "currentQuestion w = Some q" and sel: "selectedIndex w = Some sel"
    and hidden: "\<not> showResult w" and last: "isLastQuestion w"
    and auth: "authSession wd = Some s"
  shows "insertCalls (snd (handleNext e2 (handleNext e1 (w, wd)))) =
           insertCalls wd @
             [\<lparr>user_id = user s,
               row_score = (if isCorrect sel q then correctCount w + 2 else correctCount w),
               total_questions = totalQuestions w,
               row_percentage =
                 percentageOf (if isCorrect sel q then correctCount w + 2 else correctCount w)
                   (totalQuestions w),
               page_url = href wd, page_title = documentTitle wd\<rparr>]"
proof -
  define w1 where
    "w1 = (if isCorrect sel q then w\<lparr>correctCount := correctCount w + 1\<rparr> else w)
            \<lparr>showResult := True\<rparr>"
  have step1: "handleNext e1 (w, wd) = (w1, wd)"
    using cq sel hidden by (simp add: handleNext_def w1_def)
  have qd: "quizData w1 = quizData w" by (simp add: quizData_def w1_def)
  have qi: "questionIndex w1 = questionIndex w" by (simp add: w1_def)
  have "currentQuestion w1 = currentQuestion w"
    unfolding currentQuestion_def qd qi by (rule refl)
  then have cq1: "currentQuestion w1 = Some q" using cq by simp
  have tq1: "totalQuestions w1 = totalQuestions w" by (simp add: totalQuestions_def qd)
  have last1: "isLastQuestion w1" using last by (simp add: isLastQuestion_def tq1 qi)
  have sel1: "selectedIndex w1 = Some sel" using sel by (simp add: w1_def)
  have shown: "showResult w1" by (simp add: w1_def)
  have cc: "correctCount w1 = (if isCorrect sel q then correctCount w + 1 else correctCount w)"
    by (simp add: w1_def)
  show ?thesis
    unfolding step1
    using cq1 sel1 shown last1 auth cc tq1
    by (cases e2) (simp_all add: handleNext_def saveQuizResult_def Let_def)
qed

text \<open>
  C1. The claim is that a correct answer to the last question adds one to the score passed
  to \<^verbatim>\<open>saveQuizResult\<close>. In the sample session the quiz has one question, answered
  correctly: submitting the answer raises the running count to 1 (the count the completion
  card shows), and finishing the quiz adds one again, so the score inserted is 2 of 1.
\<close>

theorem handleNext_counts_last_answer_twice:
  "map row_score (insertCalls (snd oneQuestionSession)) = [2]
   \<and> map total_questions (insertCalls (snd oneQuestionSession)) = [1]
   \<and> correctCount (fst oneQuestionSession) = 1"
proof -
  obtain w wd where st: "oneQuestionSession = (w, wd)" by (cases oneQuestionSession)
  have q: "isQuizPayload (Some oneQuestionQuiz)"
    by (simp add: isQuizPayload_def oneQuestionQuiz_def)
  have "map row_score (insertCalls wd) = [2] \<and> map total_questions (insertCalls wd) = [1]
        \<and> correctCount w = 1"
    using st q
    by (auto simp: oneQuestionSession_def Let_def openWidget_def requestQuiz_def
          initialWidget_def quizResponse_def clickOption_def hasResult_def currentQuestion_def
          quizData_def handleNext_def isCorrect_def isLastQuestion_def totalQuestions_def
          saveQuizResult_def oneQuestionQuiz_def examplePage_def freshWorld_def
          split: if_splits)
  then show ?thesis by (simp add: st)
qed

subsection \<open>The quiz route\<close>

lemma member_truthy: "member k j = Some v \<Longrightarrow> truthy j"
  by (cases j) simp_all

text \<open>
  C8, as stated: every POST request to \<^verbatim>\<open>/api/quiz\<close> is answered with 200 or with 400.
  Nothing in the route catches an exception of the model call: when the call throws,
  \<^verbatim>\<open>handleQuiz\<close> throws too and returns no response of its own.
\<close>

theorem handleQuiz_generation_failure:
  "handleQuiz modelDown (Some exampleBody) = Inl (str ''No object generated'')"
proof -
  have u: "member (str ''url'') exampleBody = Some (JStr (str ''https://example.org/a''))"
    and t: "member (str ''text'') exampleBody = Some (JStr (str ''Some text''))"
    by (simp_all add: exampleBody_def str_def)
  have tr: "trim (str ''Some text'') \<noteq> []"
    by (simp add: str_def trim_def isSpace_def)
  have ne: "str ''Some text'' \<noteq> []" by (simp add: str_def)
  have y: "truthy exampleBody" by (simp add: exampleBody_def)
  show ?thesis
    using tr ne
    by (simp add: handleQuiz_def generateQuiz_def u t y Let_def MAX_TEXT_LENGTH_def
          countField_def promptTitle_def exampleBody_def str_def)
       (simp add: modelDown_def str_def)
qed

lemma handleQuiz_missing_url:
  assumes "parsed = None \<or> (\<exists>j. parsed = Some j \<and> (\<forall>u. member (str ''url'') j \<noteq> Some (JStr u)))"
  shows "handleQuiz ev parsed = Inr \<lparr>statusCode = 400, body = ErrorBody (str ''Missing url'')\<rparr>"
  using assms
  by (auto simp: handleQuiz_def Let_def split: option.splits json.splits bool.splits)

lemma handleQuiz_with_url:
  assumes "parsed = Some j" and "member (str ''url'') j = Some (JStr u)"
  shows "handleQuiz ev parsed =
           (case generateQuiz ev u (member (str ''title'') j) (member (str ''text'') j)
                   (member (str ''count'') j) of
              Inl e \<Rightarrow> Inl e
            | Inr (QuizError e) \<Rightarrow> Inr \<lparr>statusCode = 400, body = ErrorBody e\<rparr>
            | Inr (QuizOk object u') \<Rightarrow>
                Inr \<lparr>statusCode = 200, body = QuizBody (questions object) u'\<rparr>)"
  using assms member_truthy[OF assms(2)] by (simp add: handleQuiz_def)

lemma requestedCount_throws:
  "requestedCount conv c = Inl e \<Longrightarrow> \<exists>v. conv v = Inl e"
  by (cases c) auto

lemma promptTitle_throws: "promptTitle ev ttl = Inl e \<Longrightarrow> \<exists>v. toText ev v = Inl e"
  by (auto simp: promptTitle_def split: option.splits json.splits)

lemma generateQuiz_throws:
  assumes "generateQuiz ev u ttl txt cnt = Inl e"
  shows "(\<exists>p. generateObject ev p = Inl e) \<or> (\<exists>v. toNumber ev v = Inl e)
         \<or> (\<exists>v. toText ev v = Inl e)"
  using assms requestedCount_throws[of "toNumber ev" "countField cnt" e]
    promptTitle_throws[of ev ttl e]
  by (auto simp: generateQuiz_def Let_def split: if_splits sum.splits)

lemma generateQuiz_ok:
  "generateQuiz ev u ttl txt cnt = Inr (QuizOk object u') \<Longrightarrow>
     u' = u \<and> (\<exists>p. generateObject ev p = Inr object)"
  by (auto simp: generateQuiz_def Let_def split: if_splits sum.splits)

lemma generateQuiz_no_text:
  assumes "\<forall>t. txt = Some (JStr t) \<longrightarrow> trim t = []" and "fetchPageText ev u = []"
  shows "generateQuiz ev u ttl txt cnt = Inr (QuizError (str ''Unable to extract page text''))"
  using assms
  by (auto simp: generateQuiz_def Let_def split: option.splits json.splits)

text \<open>
  C8, amended: for every POST request to \<^verbatim>\<open>/api/quiz\<close>, either \<^verbatim>\<open>handleQuiz\<close> throws
  (the exception of the model call, or of converting a count or a title that has no
  primitive value), or its response is 200 with the questions of the generated object
  and the request's URL as \<^verbatim>\<open>sourceUrl\<close>, or 400 with an error message. A body
  that is not valid JSON, or whose \<^verbatim>\<open>url\<close> is not a string, gives 400 "Missing url". A
  request whose \<^verbatim>\<open>text\<close> is absent, not a string or blank, and from whose URL no text
  can be extracted, gives 400 "Unable to extract page text".
\<close>

theorem handleQuiz_responses:
  "(case handleQuiz ev parsed of
      Inl e \<Rightarrow>
        (\<exists>p. generateObject ev p = Inl e) \<or> (\<exists>v. toNumber ev v = Inl e)
        \<or> (\<exists>v. toText ev v = Inl e)
    | Inr r \<Rightarrow>
        (\<exists>object p j u.
            r = \<lparr>statusCode = 200, body = QuizBody (questions object) u\<rparr>
            \<and> generateObject ev p = Inr object
            \<and> parsed = Some j \<and> member (str ''url'') j = Some (JStr u))
        \<or> (\<exists>e. r = \<lparr>statusCode = 400, body = ErrorBody e\<rparr>))
   \<and> (parsed = None \<or> (\<exists>j. parsed = Some j \<and> (\<forall>u. member (str ''url'') j \<noteq> Some (JStr u)))
        \<longrightarrow> handleQuiz ev parsed
              = Inr \<lparr>statusCode = 400, body = ErrorBody (str ''Missing url'')\<rparr>)
   \<and> (\<forall>j u. parsed = Some j \<and> member (str ''url'') j = Some (JStr u)
          \<and> (\<forall>t. member (str ''text'') j = Some (JStr t) \<longrightarrow> trim t = [])
          \<and> fetchPageText ev u = []
        \<longrightarrow> handleQuiz ev parsed
              = Inr \<lparr>statusCode = 400, body = ErrorBody (str ''Unable to extract page text'')\<rparr>)"
proof (intro conjI allI impI)
  show "case handleQuiz ev parsed of
      Inl e \<Rightarrow>
        (\<exists>p. generateObject ev p = Inl e) \<or> (\<exists>v. toNumber ev v = Inl e)
        \<or> (\<exists>v. toText ev v = Inl e)
    | Inr r \<Rightarrow>
        (\<exists>object p j u.
            r = \<lparr>statusCode = 200, body = QuizBody (questions object) u\<rparr>
            \<and> generateObject ev p = Inr object
            \<and> parsed = Some j \<and> member (str ''url'') j = Some (JStr u))
        \<or> (\<exists>e. r = \<lparr>statusCode = 400, body = ErrorBody e\<rparr>)"
  proof (cases "\<exists>j u. parsed = Some j \<and> member (str ''url'') j = Some (JStr u)")
    case False
    then have "parsed = None \<or> (\<exists>j. parsed = Some j \<and> (\<forall>u. member (str ''url'') j \<noteq> Some (JStr u)))"
      by (cases parsed) auto
    then show ?thesis by (simp add: handleQuiz_missing_url)
  next
    case True
    then obtain j u where j: "parsed = Some j" and u: "member (str ''url'') j = Some (JStr u)"
      by blast
    let ?g = "generateQuiz ev u (member (str ''title'') j) (member (str ''text'') j)
                (member (str ''count'') j)"
    show ?thesis
    proof (cases ?g)
      case (Inl e)
      then show ?thesis
        using generateQuiz_throws[OF Inl] by (simp add: handleQuiz_with_url[OF j u])
    next
      case (Inr res)
      show ?thesis
      proof (cases res)
        case (QuizError e)
        then show ?thesis using Inr by (simp add: handleQuiz_with_url[OF j u])
      next
        case (QuizOk object u')
        then have g: "?g = Inr (QuizOk object u')" using Inr by simp
        from generateQuiz_ok[OF g] obtain p where u': "u' = u"
          and p: "generateObject ev p = Inr object"
          by blast
        have hq: "handleQuiz ev parsed
                    = Inr \<lparr>statusCode = 200, body = QuizBody (questions object) u\<rparr>"
          using g u' by (simp add: handleQuiz_with_url[OF j u])
        have "\<exists>object' p' j' u''.
                \<lparr>statusCode = 200, body = QuizBody (questions object) u\<rparr>
                  = \<lparr>statusCode = 200, body = QuizBody (questions object') u''\<rparr>
                \<and> generateObject ev p' = Inr object'
                \<and> parsed = Some j' \<and> member (str ''url'') j' = Some (JStr u'')"
          using p j u by blast
        then show ?thesis unfolding hq by simp
      qed
    qed
  qed
next
  assume "parsed = None \<or> (\<exists>j. parsed = Some j \<and> (\<forall>u. member (str ''url'') j \<noteq> Some (JStr u)))"
  then show "handleQuiz ev parsed
              = Inr \<lparr>statusCode = 400, body = ErrorBody (str ''Missing url'')\<rparr>"
    by (rule handleQuiz_missing_url)
next
  fix j u
  assume h: "parsed = Some j \<and> member (str ''url'') j = Some (JStr u)
          \<and> (\<forall>t. member (str ''text'') j = Some (JStr t) \<longrightarrow> trim t = [])
          \<and> fetchPageText ev u = []"
  then have j: "parsed = Some j" and u: "member (str ''url'') j = Some (JStr u)" by simp_all
  have "generateQuiz ev u (member (str ''title'') j) (member (str ''text'') j)
                (member (str ''count'') j)
             = Inr (QuizError (str ''Unable to extract page text''))"
    using h by (intro generateQuiz_no_text) simp_all
  then show "handleQuiz ev parsed
              = Inr \<lparr>statusCode = 400, body = ErrorBody (str ''Unable to extract page text'')\<rparr>"
    by (simp add: handleQuiz_with_url[OF j u])
qed

theorem handleQuiz_responses_witness:
  "handleQuiz modelDown None = Inr \<lparr>statusCode = 400, body = ErrorBody (str ''Missing url'')\<rparr>
   \<and> handleQuiz modelDown (Some (JObj [(str ''url'', JStr (str ''https://example.org/a''))]))
       = Inr \<lparr>statusCode = 400, body = ErrorBody (str ''Unable to extract page text'')\<rparr>"
proof -
  let ?j = "JObj [(str ''url'', JStr (str ''https://example.org/a''))]"
  have u: "member (str ''url'') ?j = Some (JStr (str ''https://example.org/a''))" by simp
  have t: "\<forall>t. member (str ''text'') ?j = Some (JStr t) \<longrightarrow> trim t = []"
    by (simp add: str_def)
  have f: "fetchPageText modelDown (str ''https://example.org/a'') = []"
    by (simp add: modelDown_def)
  have a: "handleQuiz modelDown None
             = Inr \<lparr>statusCode = 400, body = ErrorBody (str ''Missing url'')\<rparr>"
    using handleQuiz_responses[where ev = modelDown and parsed = None] by blast
  have b: "handleQuiz modelDown (Some ?j)
       = Inr \<lparr>statusCode = 400, body = ErrorBody (str ''Unable to extract page text'')\<rparr>"
    using handleQuiz_responses[where ev = modelDown and parsed = "Some ?j"] u t f by blast
  show ?thesis using a b by simp
qed

end
